theory Spec2Isabelle
  imports Main
begin

section \<open>Exceptions\<close>

text \<open>
  The Python exceptions the workflow can meet.  \<open>KeyboardInterrupt\<close> derives from
  \<open>BaseException\<close> only, so an \<open>except Exception\<close> clause does not catch it; every
  other constructor is a subclass of \<open>Exception\<close>.  \<open>RequestException\<close> stands for
  \<open>requests.exceptions.RequestException\<close> and its subclasses (HTTPError, Timeout, ...).
\<close>

datatype exn =
    WorkfrontAPIError
  | CloudinaryServiceError
  | RequestException
  | KeyError
  | OSError
  | ValueError
  | KeyboardInterrupt

fun is_Exception :: "exn \<Rightarrow> bool" where
  "is_Exception KeyboardInterrupt = False"
| "is_Exception _ = True"

section \<open>Configuration (config.py)\<close>

record config =
  WORKFRONT_BASE_URL :: string
  WORKFRONT_API_KEY :: string
  WORKFRONT_BASE :: string
  WORKFRONT_CLIENT_ID :: string
  WORKFRONT_CLIENT_SECRET :: string
  WORKFRONT_CUSTOMER_ID :: string
  WORKFRONT_USER_ID :: string
  WORKFRONT_PRIVATE_KEY :: string
  CLOUDINARY_CLOUD_NAME :: string
  CLOUDINARY_API_KEY :: string
  CLOUDINARY_API_SECRET :: string
  CLOUDINARY_ASSET_FOLDER :: string
  TASK_STATUS_UPLOAD :: string
  TASK_COMPLETE :: string
  TASK_ERROR :: string
  MAX_TASKS_PER_RUN :: int

text \<open>\<open>missing\<close> is the list comprehension \<open>[key for key, value in required.items() if not value]\<close>:
  the names of the settings whose value is the empty string.\<close>

definition missing :: "(string \<times> string) list \<Rightarrow> string list" where
  "missing required = map fst (filter (\<lambda>(key, val). val = []) required)"

definition validate_workfront_config :: "config \<Rightarrow> exn + unit" where
  "validate_workfront_config cfg =
     (if missing [(''WORKFRONT_BASE_URL'', WORKFRONT_BASE_URL cfg),
                  (''WORKFRONT_API_KEY'', WORKFRONT_API_KEY cfg),
                  (''WORKFRONT_BASE'', WORKFRONT_BASE cfg),
                  (''WORKFRONT_CLIENT_ID'', WORKFRONT_CLIENT_ID cfg),
                  (''WORKFRONT_CLIENT_SECRET'', WORKFRONT_CLIENT_SECRET cfg),
                  (''WORKFRONT_CUSTOMER_ID'', WORKFRONT_CUSTOMER_ID cfg),
                  (''WORKFRONT_USER_ID'', WORKFRONT_USER_ID cfg),
                  (''WORKFRONT_PRIVATE_KEY'', WORKFRONT_PRIVATE_KEY cfg)] \<noteq> []
      then Inl ValueError else Inr ())"

definition validate_cloudinary_config :: "config \<Rightarrow> exn + unit" where
  "validate_cloudinary_config cfg =
     (if missing [(''CLOUDINARY_CLOUD_NAME'', CLOUDINARY_CLOUD_NAME cfg),
                  (''CLOUDINARY_API_KEY'', CLOUDINARY_API_KEY cfg),
                  (''CLOUDINARY_API_SECRET'', CLOUDINARY_API_SECRET cfg)] \<noteq> []
      then Inl ValueError else Inr ())"

definition validate_all :: "config \<Rightarrow> exn + unit" where
  "validate_all cfg =
     (case validate_workfront_config cfg of
        Inl e \<Rightarrow> Inl e
      | Inr _ \<Rightarrow> validate_cloudinary_config cfg)"

section \<open>Data model\<close>

text \<open>
  Tasks and documents are the JSON dictionaries the Workfront search returns.  Only the
  keys the code reads are kept; a key that may be absent is an \<open>option\<close> field
  (\<open>None\<close>: the dictionary has no such key), so that \<open>d['ID']\<close> can raise \<open>KeyError\<close> and
  \<open>d.get('name', default)\<close> can fall back.
\<close>

record document =
  doc_ID :: "string option"
  doc_name :: "string option"

record task =
  task_ID :: "string option"
  hasDocuments :: "bool option"
  documents :: "document list option"

type_synonym path = string
type_synonym bytes = string

text \<open>Every call that leaves the process, with the arguments the code passes.\<close>

datatype call =
    CallExchange
  | CallSearch string int bool
  | CallDownload string string
  | CallUpload path string string string
  | CallUpdateDocument string string
  | CallUpdateTask string string

text \<open>
  The world the program acts on: the local filesystem, the description field of each
  Workfront document, the status field of each Workfront task, and the calls issued so
  far, oldest first, each with a flag telling whether it returned without raising.
  \<open>CallUpload p k n f\<close> is an upload of file \<open>p\<close> under public id \<open>k\<close> with display name \<open>n\<close>
  into asset folder \<open>f\<close>.
\<close>

record world =
  fs :: "path \<Rightarrow> bytes option"
  descriptions :: "string \<Rightarrow> string option"
  statuses :: "string \<Rightarrow> string option"
  calls :: "(call \<times> bool) list"

text \<open>
  The collaborators.  Each field answers one library call of the source in the world as it
  stands when the call is made, so the same request may succeed once and fail later:
  \<^item> \<open>oauth_exchange\<close>: \<open>jwt.encode\<close>, \<open>requests.post\<close>, \<open>raise_for_status\<close> and
    \<open>resp.json()["access_token"]\<close> of \<open>get_workfront_session_id\<close>;
  \<^item> \<open>http_search\<close>: \<open>requests.get\<close>, \<open>raise_for_status\<close> and \<open>response.json()\<close> of the task
    search, read at key \<open>'data'\<close> (\<open>None\<close>: the key is absent);
  \<^item> \<open>http_download\<close>: \<open>requests.get\<close>, \<open>raise_for_status\<close> and \<open>response.content\<close>;
  \<^item> \<open>http_put_document\<close>, \<open>http_put_task\<close>: \<open>requests.put\<close> and \<open>raise_for_status\<close>, giving
    the status code;
  \<^item> \<open>uploader_upload\<close>: \<open>cloudinary.uploader.upload\<close>, giving the response read at key
    \<open>'secure_url'\<close> (\<open>None\<close>: the key is absent);
  \<^item> \<open>temp_suffix\<close>: the random part of the name \<open>tempfile.NamedTemporaryFile\<close> picks, or
    \<open>None\<close> when creating the file raises \<open>OSError\<close>;
  \<^item> \<open>file_write\<close>: whether \<open>write\<close>, \<open>flush\<close> and \<open>close\<close> go through (\<open>False\<close>: \<open>OSError\<close>);
  \<^item> \<open>os_remove\<close>: whether \<open>os.remove\<close> goes through (\<open>False\<close>: \<open>OSError\<close>).
\<close>

record env =
  oauth_exchange :: "world \<Rightarrow> exn + string"
  http_search :: "world \<Rightarrow> string \<Rightarrow> int \<Rightarrow> bool \<Rightarrow> exn + task list option"
  http_download :: "world \<Rightarrow> string \<Rightarrow> string \<Rightarrow> exn + bytes"
  http_put_document :: "world \<Rightarrow> string \<Rightarrow> string \<Rightarrow> exn + int"
  http_put_task :: "world \<Rightarrow> string \<Rightarrow> string \<Rightarrow> exn + int"
  uploader_upload :: "world \<Rightarrow> path \<Rightarrow> string \<Rightarrow> string \<Rightarrow> string \<Rightarrow> exn + string option"
  temp_suffix :: "world \<Rightarrow> string option"
  file_write :: "world \<Rightarrow> path \<Rightarrow> bytes \<Rightarrow> bool"
  os_remove :: "world \<Rightarrow> path \<Rightarrow> bool"

definition record_call :: "call \<Rightarrow> bool \<Rightarrow> world \<Rightarrow> world" where
  "record_call c ok w = w\<lparr>calls := calls w @ [(c, ok)]\<rparr>"

section \<open>Workfront API client (workfront\_api.py)\<close>

text \<open>\<open>except requests.exceptions.RequestException as e: raise WorkfrontAPIError(...)\<close>:
  a request exception is re-raised as \<open>WorkfrontAPIError\<close>, anything else propagates as it is.\<close>

fun request_error :: "exn \<Rightarrow> exn" where
  "request_error RequestException = WorkfrontAPIError"
| "request_error e = e"

definition search_tasks ::
  "env \<Rightarrow> string \<Rightarrow> int \<Rightarrow> bool \<Rightarrow> world \<Rightarrow> (exn + task list) \<times> world" where
  "search_tasks en status limit include_documents w =
     (case http_search en w status limit include_documents of
        Inl e \<Rightarrow> (Inl (request_error e), record_call (CallSearch status limit include_documents) False w)
      | Inr response \<Rightarrow>
          (Inr (case response of None \<Rightarrow> [] | Some data \<Rightarrow> data),
           record_call (CallSearch status limit include_documents) True w))"

definition download_document ::
  "env \<Rightarrow> string \<Rightarrow> string \<Rightarrow> world \<Rightarrow> (exn + bytes) \<times> world" where
  "download_document en document_id session_id w =
     (case http_download en w document_id session_id of
        Inl e \<Rightarrow> (Inl (request_error e), record_call (CallDownload document_id session_id) False w)
      | Inr content \<Rightarrow> (Inr content, record_call (CallDownload document_id session_id) True w))"

text \<open>A \<open>PUT\<close> that returns has been applied by Workfront: the field holds the new value.
  One that raises leaves the field as it was.\<close>

definition update_document ::
  "env \<Rightarrow> string \<Rightarrow> string \<Rightarrow> world \<Rightarrow> (exn + int) \<times> world" where
  "update_document en document_id description w =
     (case http_put_document en w document_id description of
        Inl e \<Rightarrow> (Inl (request_error e), record_call (CallUpdateDocument document_id description) False w)
      | Inr status_code \<Rightarrow>
          (Inr status_code,
           record_call (CallUpdateDocument document_id description) True
             (w\<lparr>descriptions := (descriptions w)(document_id \<mapsto> description)\<rparr>)))"

definition update_task_status ::
  "env \<Rightarrow> string \<Rightarrow> string \<Rightarrow> world \<Rightarrow> (exn + int) \<times> world" where
  "update_task_status en task_id status w =
     (case http_put_task en w task_id status of
        Inl e \<Rightarrow> (Inl (request_error e), record_call (CallUpdateTask task_id status) False w)
      | Inr status_code \<Rightarrow>
          (Inr status_code,
           record_call (CallUpdateTask task_id status) True
             (w\<lparr>statuses := (statuses w)(task_id \<mapsto> status)\<rparr>)))"

section \<open>Asset store client (cloudinary\_service.py)\<close>

text \<open>\<open>folder = asset_folder or self.asset_folder\<close>: an absent or empty argument falls back to
  the configured folder.  \<open>except Exception as e: raise CloudinaryServiceError(...)\<close> turns
  every \<open>Exception\<close> into \<open>CloudinaryServiceError\<close>; a \<open>KeyboardInterrupt\<close> passes through.\<close>

definition upload_file ::
  "env \<Rightarrow> config \<Rightarrow> path \<Rightarrow> string \<Rightarrow> string \<Rightarrow> string option \<Rightarrow> world
     \<Rightarrow> (exn + string option) \<times> world" where
  "upload_file en cfg file_path public_id display_name asset_folder w =
     (let folder = (case asset_folder of
                      None \<Rightarrow> CLOUDINARY_ASSET_FOLDER cfg
                    | Some f \<Rightarrow> if f = [] then CLOUDINARY_ASSET_FOLDER cfg else f)
      in case uploader_upload en w file_path folder display_name public_id of
           Inl e \<Rightarrow>
             (Inl (if is_Exception e then CloudinaryServiceError else e),
              record_call (CallUpload file_path public_id display_name folder) False w)
         | Inr response \<Rightarrow>
             (Inr response, record_call (CallUpload file_path public_id display_name folder) True w))"

section \<open>Document processor (document\_processor.py)\<close>

text \<open>\<open>tempfile.NamedTemporaryFile(delete=False)\<close> creates an empty file named by the
  temporary directory, the prefix \<open>tmp\<close> and a random suffix.\<close>

definition temp_name :: "string \<Rightarrow> path" where
  "temp_name suffix = ''/tmp/tmp'' @ suffix"

text \<open>
  \<open>_download_to_temp_file\<close>: the download, then the creation of the file, then
  \<open>write\<close>, \<open>flush\<close>, \<open>close\<close>.  When writing raises, the file already exists and the
  path is not returned.
\<close>

definition download_to_temp_file ::
  "env \<Rightarrow> document \<Rightarrow> string \<Rightarrow> world \<Rightarrow> (exn + path) \<times> world" where
  "download_to_temp_file en doc session_id w =
     (case doc_ID doc of
        None \<Rightarrow> (Inl KeyError, w)
      | Some document_id \<Rightarrow>
          (case download_document en document_id session_id w of
             (Inl e, w1) \<Rightarrow> (Inl e, w1)
           | (Inr content, w1) \<Rightarrow>
               (case temp_suffix en w1 of
                  None \<Rightarrow> (Inl OSError, w1)
                | Some suffix \<Rightarrow>
                    (let name = temp_name suffix;
                         w2 = w1\<lparr>fs := (fs w1)(name \<mapsto> [])\<rparr>
                     in if file_write en w2 name content
                        then (Inr name, w2\<lparr>fs := (fs w2)(name \<mapsto> content)\<rparr>)
                        else (Inl OSError, w2)))))"

text \<open>\<open>_cleanup_temp_file\<close>: \<open>os.remove\<close> when \<open>os.path.exists\<close>; the \<open>OSError\<close> of a
  failed removal is caught and logged, and the file stays.\<close>

definition cleanup_temp_file :: "env \<Rightarrow> path \<Rightarrow> world \<Rightarrow> world" where
  "cleanup_temp_file en file_path w =
     (if fs w file_path \<noteq> None
      then (if os_remove en w file_path then w\<lparr>fs := (fs w)(file_path := None)\<rparr> else w)
      else w)"

text \<open>
  The \<open>try\<close> block of \<open>process_document\<close>.  Besides the result it gives the value of the
  local variable \<open>temp_file_path\<close> at the moment the block is left, which the \<open>finally\<close>
  clause reads.
\<close>

definition process_document_try ::
  "env \<Rightarrow> config \<Rightarrow> document \<Rightarrow> string \<Rightarrow> string \<Rightarrow> string \<Rightarrow> world
     \<Rightarrow> (exn + bool \<times> string) \<times> path option \<times> world" where
  "process_document_try en cfg doc document_id document_name session_id w =
     (case download_to_temp_file en doc session_id w of
        (Inl e, w1) \<Rightarrow> (Inl e, None, w1)
      | (Inr temp_file_path, w1) \<Rightarrow>
          (case upload_file en cfg temp_file_path document_id document_name None w1 of
             (Inl e, w2) \<Rightarrow> (Inl e, Some temp_file_path, w2)
           | (Inr upload_response, w2) \<Rightarrow>
               (case upload_response of
                  None \<Rightarrow> (Inl KeyError, Some temp_file_path, w2)
                | Some secure_url \<Rightarrow>
                    (case update_document en document_id secure_url w2 of
                       (Inl e, w3) \<Rightarrow> (Inl e, Some temp_file_path, w3)
                     | (Inr _, w3) \<Rightarrow>
                         (Inr (True, TASK_COMPLETE cfg), Some temp_file_path, w3)))))"

text \<open>\<open>document.get('name', document_id)\<close>.\<close>

definition get_name :: "document \<Rightarrow> string \<Rightarrow> string" where
  "get_name doc fallback = (case doc_name doc of None \<Rightarrow> fallback | Some n \<Rightarrow> n)"

text \<open>The clause \<open>except (WorkfrontAPIError, CloudinaryServiceError)\<close> of \<open>process_document\<close>:
  these two exceptions become \<open>(False, Config.TASK_ERROR)\<close>, every other one propagates.\<close>

definition except_api_errors :: "config \<Rightarrow> exn \<Rightarrow> exn + bool \<times> string" where
  "except_api_errors cfg e =
     (if e = WorkfrontAPIError \<or> e = CloudinaryServiceError
      then Inr (False, TASK_ERROR cfg) else Inl e)"

text \<open>
  \<open>process_document\<close>: \<open>document['ID']\<close> and \<open>document.get('name', document_id)\<close> before the
  \<open>try\<close>; then the \<open>try\<close> block and its \<open>except\<close> clause; \<open>finally\<close> removes the file when
  \<open>temp_file_path\<close> is truthy (neither \<open>None\<close> nor empty).
\<close>

definition process_document ::
  "env \<Rightarrow> config \<Rightarrow> document \<Rightarrow> string \<Rightarrow> world \<Rightarrow> (exn + bool \<times> string) \<times> world" where
  "process_document en cfg doc session_id w =
     (case doc_ID doc of
        None \<Rightarrow> (Inl KeyError, w)
      | Some document_id \<Rightarrow>
          (let document_name = get_name doc document_id
           in case process_document_try en cfg doc document_id document_name session_id w of
                (r, temp_file_path, w1) \<Rightarrow>
                  (let result = (case r of
                                   Inl e \<Rightarrow> except_api_errors cfg e
                                 | Inr v \<Rightarrow> Inr v)
                   in case temp_file_path of
                        None \<Rightarrow> (result, w1)
                      | Some p \<Rightarrow>
                          if p \<noteq> [] then (result, cleanup_temp_file en p w1)
                          else (result, w1))))"

text \<open>The \<open>for document in documents\<close> loop of \<open>process_task_documents\<close>, with the list
  \<open>results\<close> built so far; an exception of \<open>process_document\<close> ends it.\<close>

fun process_documents ::
  "env \<Rightarrow> config \<Rightarrow> document list \<Rightarrow> string \<Rightarrow> bool list \<Rightarrow> world
     \<Rightarrow> (exn + bool list) \<times> world" where
  "process_documents en cfg [] session_id results w = (Inr results, w)"
| "process_documents en cfg (doc # docs) session_id results w =
     (case process_document en cfg doc session_id w of
        (Inl e, w1) \<Rightarrow> (Inl e, w1)
      | (Inr (success, status), w1) \<Rightarrow>
          process_documents en cfg docs session_id (results @ [success]) w1)"

text \<open>Python's \<open>all(results)\<close>.\<close>

definition all_true :: "bool list \<Rightarrow> bool" where
  "all_true results = list_all (\<lambda>b. b) results"

definition process_task_documents ::
  "env \<Rightarrow> config \<Rightarrow> task \<Rightarrow> string \<Rightarrow> world \<Rightarrow> (exn + string) \<times> world" where
  "process_task_documents en cfg tsk session_id w =
     (case task_ID tsk of
        None \<Rightarrow> (Inl KeyError, w)
      | Some task_id \<Rightarrow>
          (let docs = (case documents tsk of None \<Rightarrow> [] | Some ds \<Rightarrow> ds)
           in if docs = [] then (Inr (TASK_ERROR cfg), w)
              else (case process_documents en cfg docs session_id [] w of
                      (Inl e, w1) \<Rightarrow> (Inl e, w1)
                    | (Inr results, w1) \<Rightarrow>
                        (Inr (if all_true results then TASK_COMPLETE cfg else TASK_ERROR cfg),
                         w1))))"

section \<open>Authentication (authenticate.py)\<close>

text \<open>\<open>get_workfront_session_id\<close> raises \<open>ValueError\<close> when a required variable is empty;
  every exception of the token exchange propagates unchanged (\<open>raise\<close>).\<close>

definition get_workfront_session_id :: "env \<Rightarrow> config \<Rightarrow> world \<Rightarrow> (exn + string) \<times> world" where
  "get_workfront_session_id en cfg w =
     (if missing [(''WORKFRONT_BASE'', WORKFRONT_BASE cfg),
                  (''WORKFRONT_CLIENT_ID'', WORKFRONT_CLIENT_ID cfg),
                  (''WORKFRONT_CLIENT_SECRET'', WORKFRONT_CLIENT_SECRET cfg),
                  (''WORKFRONT_CUSTOMER_ID'', WORKFRONT_CUSTOMER_ID cfg),
                  (''WORKFRONT_USER_ID'', WORKFRONT_USER_ID cfg),
                  (''WORKFRONT_PRIVATE_KEY'', WORKFRONT_PRIVATE_KEY cfg)] \<noteq> []
      then (Inl ValueError, w)
      else (case oauth_exchange en w of
              Inl e \<Rightarrow> (Inl e, record_call CallExchange False w)
            | Inr session_id \<Rightarrow> (Inr session_id, record_call CallExchange True w)))"

section \<open>Run orchestrator (main.py)\<close>

definition validate_configuration :: "config \<Rightarrow> bool" where
  "validate_configuration cfg =
     (case validate_all cfg of Inl e \<Rightarrow> False | Inr _ \<Rightarrow> True)"

text \<open>\<open>task.get('hasDocuments')\<close> as a condition: true when the key is present and true.\<close>

definition has_documents :: "task \<Rightarrow> bool" where
  "has_documents tsk = (case hasDocuments tsk of None \<Rightarrow> False | Some b \<Rightarrow> b)"

text \<open>\<open>find_tasks_for_upload\<close>: a \<open>WorkfrontAPIError\<close> of the search is caught and gives the
  empty list; any other exception propagates.\<close>

definition find_tasks_for_upload :: "env \<Rightarrow> config \<Rightarrow> world \<Rightarrow> (exn + task list) \<times> world" where
  "find_tasks_for_upload en cfg w =
     (case search_tasks en (TASK_STATUS_UPLOAD cfg) (MAX_TASKS_PER_RUN cfg) True w of
        (Inl e, w1) \<Rightarrow> if e = WorkfrontAPIError then (Inr [], w1) else (Inl e, w1)
      | (Inr tasks, w1) \<Rightarrow>
          if tasks = [] then (Inr [], w1)
          else (Inr (filter has_documents tasks), w1))"

record stats =
  total_tasks :: int
  successful_tasks :: int
  failed_tasks :: int
  total_documents :: int

text \<open>The \<open>try\<close> block of one iteration of \<open>process_tasks\<close>: aggregate, persist the status,
  then count the task.\<close>

definition process_task_try ::
  "env \<Rightarrow> config \<Rightarrow> task \<Rightarrow> string \<Rightarrow> string \<Rightarrow> stats \<Rightarrow> world \<Rightarrow> (exn + stats) \<times> world" where
  "process_task_try en cfg tsk task_id session_id st w =
     (case process_task_documents en cfg tsk session_id w of
        (Inl e, w1) \<Rightarrow> (Inl e, w1)
      | (Inr final_status, w1) \<Rightarrow>
          (case update_task_status en task_id final_status w1 of
             (Inl e, w2) \<Rightarrow> (Inl e, w2)
           | (Inr _, w2) \<Rightarrow>
               (Inr (if final_status = TASK_COMPLETE cfg
                     then st\<lparr>successful_tasks := successful_tasks st + 1\<rparr>
                     else st\<lparr>failed_tasks := failed_tasks st + 1\<rparr>),
                w2)))"

text \<open>
  The \<open>for i, task in enumerate(tasks, 1)\<close> loop.  \<open>task['ID']\<close> is read before the \<open>try\<close>, so
  its \<open>KeyError\<close> leaves the loop.  \<open>except Exception\<close> counts the task as failed and tries
  to write \<open>Config.TASK_ERROR\<close>; an \<open>Exception\<close> of that second write is caught and logged.
  A \<open>KeyboardInterrupt\<close> is caught by neither handler.
\<close>

fun process_tasks_loop ::
  "env \<Rightarrow> config \<Rightarrow> task list \<Rightarrow> string \<Rightarrow> stats \<Rightarrow> world \<Rightarrow> (exn + stats) \<times> world" where
  "process_tasks_loop en cfg [] session_id st w = (Inr st, w)"
| "process_tasks_loop en cfg (tsk # tasks) session_id st w =
     (case task_ID tsk of
        None \<Rightarrow> (Inl KeyError, w)
      | Some task_id \<Rightarrow>
          (let document_count = int (length (case documents tsk of None \<Rightarrow> [] | Some ds \<Rightarrow> ds));
               st1 = st\<lparr>total_documents := total_documents st + document_count\<rparr>
           in case process_task_try en cfg tsk task_id session_id st1 w of
                (Inr st2, w1) \<Rightarrow> process_tasks_loop en cfg tasks session_id st2 w1
              | (Inl e, w1) \<Rightarrow>
                  if is_Exception e
                  then (let st2 = st1\<lparr>failed_tasks := failed_tasks st1 + 1\<rparr>
                        in case update_task_status en task_id (TASK_ERROR cfg) w1 of
                             (Inl update_error, w2) \<Rightarrow>
                               if is_Exception update_error
                               then process_tasks_loop en cfg tasks session_id st2 w2
                               else (Inl update_error, w2)
                           | (Inr _, w2) \<Rightarrow> process_tasks_loop en cfg tasks session_id st2 w2)
                  else (Inl e, w1)))"

definition process_tasks ::
  "env \<Rightarrow> config \<Rightarrow> task list \<Rightarrow> string \<Rightarrow> world \<Rightarrow> (exn + stats) \<times> world" where
  "process_tasks en cfg tasks session_id w =
     process_tasks_loop en cfg tasks session_id
       \<lparr>total_tasks = int (length tasks), successful_tasks = 0, failed_tasks = 0,
        total_documents = 0\<rparr> w"

text \<open>The \<open>try\<close> block of \<open>main\<close>: services, authentication, search, processing, exit code.
  \<open>print_summary\<close> only logs.\<close>

definition main_try :: "env \<Rightarrow> config \<Rightarrow> world \<Rightarrow> (exn + int) \<times> world" where
  "main_try en cfg w =
     (case get_workfront_session_id en cfg w of
        (Inl e, w1) \<Rightarrow> (Inl e, w1)
      | (Inr session_id, w1) \<Rightarrow>
          (case find_tasks_for_upload en cfg w1 of
             (Inl e, w2) \<Rightarrow> (Inl e, w2)
           | (Inr tasks, w2) \<Rightarrow>
               if tasks = [] then (Inr 0, w2)
               else (case process_tasks en cfg tasks session_id w2 of
                       (Inl e, w3) \<Rightarrow> (Inl e, w3)
                     | (Inr st, w3) \<Rightarrow> (Inr (if failed_tasks st > 0 then 1 else 0), w3))))"

text \<open>\<open>main\<close>: exit code 1 on invalid configuration; \<open>except KeyboardInterrupt\<close> gives 130,
  \<open>except Exception\<close> gives 1.\<close>

definition main :: "env \<Rightarrow> config \<Rightarrow> world \<Rightarrow> int \<times> world" where
  "main en cfg w =
     (if \<not> validate_configuration cfg then (1, w)
      else (case main_try en cfg w of
              (Inr code, w1) \<Rightarrow> (code, w1)
            | (Inl e, w1) \<Rightarrow> if e = KeyboardInterrupt then (130, w1) else (1, w1)))"

section \<open>Observations\<close>

text \<open>Whether a call returned rather than raised, and whether a call of
  \<open>process_document\<close> returned success.\<close>

definition returned :: "exn + 'a \<Rightarrow> bool" where
  "returned r = (case r of Inl e \<Rightarrow> False | Inr v \<Rightarrow> True)"

definition succeeded :: "exn + bool \<times> string \<Rightarrow> bool" where
  "succeeded r = (case r of Inl e \<Rightarrow> False | Inr (success, status) \<Rightarrow> success)"

text \<open>The calls of \<open>process_document\<close> that the loop over a document list makes, in order,
  each in the world its predecessor left; a call that raises is the last one.\<close>

fun document_outcomes ::
  "env \<Rightarrow> config \<Rightarrow> document list \<Rightarrow> string \<Rightarrow> world \<Rightarrow> (exn + bool \<times> string) list" where
  "document_outcomes en cfg [] session_id w = []"
| "document_outcomes en cfg (doc # docs) session_id w =
     (case process_document en cfg doc session_id w of
        (Inl e, w1) \<Rightarrow> [Inl e]
      | (Inr v, w1) \<Rightarrow> Inr v # document_outcomes en cfg docs session_id w1)"

text \<open>The calls issued between an earlier world and a later one.\<close>

definition new_calls :: "world \<Rightarrow> world \<Rightarrow> (call \<times> bool) list" where
  "new_calls w w' = drop (length (calls w)) (calls w')"

text \<open>The tasks whose status field a list of calls writes or tries to write.\<close>

fun task_updates :: "(call \<times> bool) list \<Rightarrow> string list" where
  "task_updates [] = []"
| "task_updates ((CallUpdateTask task_id status, ok) # cs) = task_id # task_updates cs"
| "task_updates (c # cs) = task_updates cs"

text \<open>No call to a collaborator is interrupted from outside: none raises
  \<open>KeyboardInterrupt\<close>.\<close>

definition uninterrupted :: "env \<Rightarrow> bool" where
  "uninterrupted en \<longleftrightarrow>
     (\<forall>w i s. http_download en w i s \<noteq> Inl KeyboardInterrupt)
     \<and> (\<forall>w p f n k. uploader_upload en w p f n k \<noteq> Inl KeyboardInterrupt)
     \<and> (\<forall>w i d. http_put_document en w i d \<noteq> Inl KeyboardInterrupt)
     \<and> (\<forall>w t s. http_put_task en w t s \<noteq> Inl KeyboardInterrupt)"

section \<open>Example runs\<close>

text \<open>A complete configuration with the default status codes, an empty world, and
  collaborators that always answer; variations make one of them fail.\<close>

definition cfg0 :: config where
  "cfg0 = \<lparr>WORKFRONT_BASE_URL = ''https://wf.example'', WORKFRONT_API_KEY = ''key'',
           WORKFRONT_BASE = ''wf'', WORKFRONT_CLIENT_ID = ''client'',
           WORKFRONT_CLIENT_SECRET = ''secret'', WORKFRONT_CUSTOMER_ID = ''customer'',
           WORKFRONT_USER_ID = ''user'', WORKFRONT_PRIVATE_KEY = ''pem'',
           CLOUDINARY_CLOUD_NAME = ''cloud'', CLOUDINARY_API_KEY = ''ckey'',
           CLOUDINARY_API_SECRET = ''csecret'', CLOUDINARY_ASSET_FOLDER = ''workfront'',
           TASK_STATUS_UPLOAD = ''UPL'', TASK_COMPLETE = ''CPL'', TASK_ERROR = ''ERR'',
           MAX_TASKS_PER_RUN = 100\<rparr>"

text \<open>A configuration whose complete code and error code are the same string.\<close>

definition cfg_same :: config where
  "cfg_same = cfg0\<lparr>TASK_COMPLETE := ''X'', TASK_ERROR := ''X''\<rparr>"

definition w0 :: world where
  "w0 = \<lparr>fs = Map.empty, descriptions = Map.empty, statuses = Map.empty, calls = []\<rparr>"

definition env_ok :: "task list \<Rightarrow> env" where
  "env_ok tasks =
     \<lparr>oauth_exchange = (\<lambda>w. Inr ''session''),
      http_search = (\<lambda>w status limit include_documents. Inr (Some tasks)),
      http_download = (\<lambda>w document_id session_id. Inr (''bytes of '' @ document_id)),
      http_put_document = (\<lambda>w document_id description. Inr 200),
      http_put_task = (\<lambda>w task_id status. Inr 200),
      uploader_upload = (\<lambda>w file_path folder display_name public_id.
                           Inr (Some (''https://res.example/'' @ public_id))),
      temp_suffix = (\<lambda>w. Some (replicate (length (calls w)) (CHR ''x''))),
      file_write = (\<lambda>w file_path content. True),
      os_remove = (\<lambda>w file_path. True)\<rparr>"

definition upload_fails_for :: "string \<Rightarrow> env \<Rightarrow> env" where
  "upload_fails_for bad en =
     en\<lparr>uploader_upload := (\<lambda>w file_path folder display_name public_id.
            if public_id = bad then Inl OSError
            else uploader_upload en w file_path folder display_name public_id)\<rparr>"

definition docA :: document where
  "docA = \<lparr>doc_ID = Some ''A'', doc_name = Some ''a.pdf''\<rparr>"

definition docB :: document where
  "docB = \<lparr>doc_ID = Some ''B'', doc_name = None\<rparr>"

definition taskT2 :: task where
  "taskT2 = \<lparr>task_ID = Some ''T2'', hasDocuments = Some True, documents = Some [docA, docB]\<rparr>"

definition taskEmpty :: task where
  "taskEmpty = \<lparr>task_ID = Some ''T0'', hasDocuments = Some True, documents = Some []\<rparr>"

definition taskT3 :: task where
  "taskT3 = \<lparr>task_ID = Some ''T3'', hasDocuments = Some True, documents = Some [docB]\<rparr>"

definition taskN1 :: task where
  "taskN1 = \<lparr>task_ID = Some ''N1'', hasDocuments = Some False, documents = Some []\<rparr>"

definition taskN2 :: task where
  "taskN2 = \<lparr>task_ID = Some ''N2'', hasDocuments = None, documents = None\<rparr>"

text \<open>A search result of five tasks, two of which have no documents.\<close>

definition five_tasks :: "task list" where
  "five_tasks = [taskT2, taskN1, taskT3, taskN2, taskEmpty]"

text \<open>Variations: \<open>os.remove\<close> fails, the temporary file cannot be created, writing it
  fails, the upload response has no \<open>'secure_url'\<close>.\<close>

definition remove_fails :: "env \<Rightarrow> env" where
  "remove_fails en = en\<lparr>os_remove := (\<lambda>w file_path. False)\<rparr>"

definition staging_fails :: "env \<Rightarrow> env" where
  "staging_fails en = en\<lparr>temp_suffix := (\<lambda>w. None)\<rparr>"

definition write_fails :: "env \<Rightarrow> env" where
  "write_fails en = en\<lparr>file_write := (\<lambda>w file_path content. False)\<rparr>"

definition response_without_url :: "env \<Rightarrow> env" where
  "response_without_url en =
     en\<lparr>uploader_upload := (\<lambda>w file_path folder display_name public_id. Inr None)\<rparr>"

text \<open>The task search fails with a request exception.\<close>

definition search_fails :: "env \<Rightarrow> env" where
  "search_fails en = en\<lparr>http_search := (\<lambda>w status limit include_documents. Inl RequestException)\<rparr>"

section \<open>Properties\<close>

lemmas run_defs = cfg0_def w0_def env_ok_def upload_fails_for_def docA_def docB_def taskT2_def
  taskEmpty_def taskT3_def taskN1_def taskN2_def process_task_documents_def process_document_def process_document_try_def
  get_name_def except_api_errors_def
  download_to_temp_file_def download_document_def upload_file_def update_document_def
  update_task_status_def cleanup_temp_file_def record_call_def temp_name_def all_true_def
  returned_def succeeded_def new_calls_def Let_def

lemmas env_defs = remove_fails_def staging_fails_def write_fails_def response_without_url_def
  search_fails_def

subsection \<open>The aggregation loop\<close>

lemma process_documents_outcomes:
  "list_all returned (document_outcomes en cfg docs sid w) \<Longrightarrow>
   fst (process_documents en cfg docs sid rs w) =
     Inr (rs @ map succeeded (document_outcomes en cfg docs sid w))"
proof (induction docs arbitrary: rs w)
  case Nil
  then show ?case by simp
next
  case (Cons d ds)
  then show ?case
    by (auto simp: returned_def succeeded_def split: prod.splits sum.splits)
qed

lemma process_documents_raise:
  "\<not> list_all returned (document_outcomes en cfg docs sid w) \<Longrightarrow>
   \<exists>e. last (document_outcomes en cfg docs sid w) = Inl e
       \<and> fst (process_documents en cfg docs sid rs w) = Inl e"
proof (induction docs arbitrary: rs w)
  case Nil
  then show ?case by simp
next
  case (Cons d ds)
  obtain r1 w1 where pd: "process_document en cfg d sid w = (r1, w1)"
    by (cases "process_document en cfg d sid w") blast
  show ?case
  proof (cases r1)
    case (Inl e)
    with pd show ?thesis by simp
  next
    case (Inr v)
    obtain b c where v: "v = (b, c)" by (cases v) blast
    have rv: "returned (Inr v :: exn + bool \<times> string)" by (simp add: returned_def)
    from Cons.prems pd Inr rv
    have nr: "\<not> list_all returned (document_outcomes en cfg ds sid w1)"
      by simp
    then have ne: "document_outcomes en cfg ds sid w1 \<noteq> []" by auto
    from Cons.IH [OF nr, of "rs @ [b]"] pd Inr v ne show ?thesis by simp
  qed
qed

lemma all_true_map: "all_true (map f xs) = list_all f xs"
  by (simp add: all_true_def list_all_iff)

lemma succeeded_returned: "succeeded r \<Longrightarrow> returned r"
  by (cases r) (simp_all add: succeeded_def returned_def)

text \<open>
  C1 (as amended).  For a task with an identifier and a non-empty document list: when
  every call of \<open>process_document\<close> returns an outcome, \<open>process_task_documents\<close> returns
  \<open>Config.TASK_COMPLETE\<close> if all outcomes are successes and \<open>Config.TASK_ERROR\<close> otherwise
  (the logical AND of the outcomes); the two codes being different, it returns
  \<open>Config.TASK_COMPLETE\<close> if and only if every call returned success; and when a call of
  \<open>process_document\<close> raises, \<open>process_task_documents\<close> returns no status: the exception of
  that call, the last one made, leaves it.
\<close>

theorem process_task_documents_all_or_nothing:
  assumes "task_ID tsk = Some task_id" and "documents tsk = Some docs" and "docs \<noteq> []"
  shows "(list_all returned (document_outcomes en cfg docs sid w) \<longrightarrow>
            fst (process_task_documents en cfg tsk sid w) =
              Inr (if list_all succeeded (document_outcomes en cfg docs sid w)
                   then TASK_COMPLETE cfg else TASK_ERROR cfg))
       \<and> (TASK_COMPLETE cfg \<noteq> TASK_ERROR cfg \<longrightarrow>
            (fst (process_task_documents en cfg tsk sid w) = Inr (TASK_COMPLETE cfg)
               \<longleftrightarrow> list_all succeeded (document_outcomes en cfg docs sid w)))
       \<and> (\<not> list_all returned (document_outcomes en cfg docs sid w) \<longrightarrow>
            (\<exists>e. last (document_outcomes en cfg docs sid w) = Inl e
                 \<and> fst (process_task_documents en cfg tsk sid w) = Inl e))"
proof -
  let ?outs = "document_outcomes en cfg docs sid w"
  have ret: "fst (process_task_documents en cfg tsk sid w) =
               Inr (if list_all succeeded ?outs then TASK_COMPLETE cfg else TASK_ERROR cfg)"
    if h: "list_all returned ?outs"
  proof -
    obtain w1 where "process_documents en cfg docs sid [] w = (Inr (map succeeded ?outs), w1)"
      using process_documents_outcomes [OF h, of "[]"]
      by (cases "process_documents en cfg docs sid [] w") simp
    then show ?thesis
      using assms by (simp add: process_task_documents_def all_true_map)
  qed
  have raise: "\<exists>e. last ?outs = Inl e \<and> fst (process_task_documents en cfg tsk sid w) = Inl e"
    if h: "\<not> list_all returned ?outs"
  proof -
    obtain e w1 where "last ?outs = Inl e"
      and "process_documents en cfg docs sid [] w = (Inl e, w1)"
      using process_documents_raise [OF h, of "[]"]
      by (cases "process_documents en cfg docs sid [] w") auto
    then show ?thesis
      using assms by (simp add: process_task_documents_def)
  qed
  have imp: "list_all returned ?outs" if "list_all succeeded ?outs"
    using that succeeded_returned by (auto simp: list_all_iff)
  show ?thesis
  proof (cases "list_all returned ?outs")
    case True
    then show ?thesis using ret by auto
  next
    case False
    then show ?thesis using raise imp by auto
  qed
qed

lemma outcomes_T2:
  "document_outcomes (upload_fails_for ''A'' (env_ok [])) cfg0 [docA, docB] ''s'' w0 =
     [Inr (False, ''ERR''), Inr (True, ''CPL'')]"
  by (simp add: run_defs)

theorem process_task_documents_all_or_nothing_witness:
  "task_ID taskT2 = Some ''T2'' \<and> documents taskT2 = Some [docA, docB] \<and> [docA, docB] \<noteq> []
   \<and> list_all returned
        (document_outcomes (upload_fails_for ''A'' (env_ok [])) cfg0 [docA, docB] ''s'' w0)
   \<and> TASK_COMPLETE cfg0 \<noteq> TASK_ERROR cfg0
   \<and> \<not> list_all succeeded
        (document_outcomes (upload_fails_for ''A'' (env_ok [])) cfg0 [docA, docB] ''s'' w0)
   \<and> fst (process_task_documents (upload_fails_for ''A'' (env_ok [])) cfg0 taskT2 ''s'' w0)
        = Inr ''ERR''"
proof -
  have h1: "task_ID taskT2 = Some ''T2''" and h2: "documents taskT2 = Some [docA, docB]"
    by (simp_all add: taskT2_def)
  have h3: "[docA, docB] \<noteq> []" by simp
  have c: "TASK_COMPLETE cfg0 \<noteq> TASK_ERROR cfg0" "TASK_ERROR cfg0 = ''ERR''"
    by (simp_all add: cfg0_def)
  show ?thesis
    using process_task_documents_all_or_nothing
            [OF h1 h2 h3, of "upload_fails_for ''A'' (env_ok [])" cfg0 "''s''" w0]
          h1 h2 c
    by (simp add: outcomes_T2 returned_def succeeded_def del: document_outcomes.simps)
qed

text \<open>Two runs over task \<open>T2\<close> with documents \<open>A\<close> and \<open>B\<close>.  In the first, the upload of
  \<open>A\<close> fails and the upload response for \<open>B\<close> has no \<open>'secure_url'\<close>: a document has failed, and
  the \<open>KeyError\<close> of \<open>B\<close> leaves \<open>process_task_documents\<close>.  In the second, the two codes
  are the same string and the upload of \<open>A\<close> fails: the configured complete code is returned.\<close>

lemma outcomes_T2_raise:
  "document_outcomes (upload_fails_for ''A'' (response_without_url (env_ok []))) cfg0
     [docA, docB] ''s'' w0 = [Inr (False, ''ERR''), Inl KeyError]"
  by (simp add: run_defs env_defs)

lemma outcomes_T2_same:
  "document_outcomes (upload_fails_for ''A'' (env_ok [])) cfg_same [docA, docB] ''s'' w0 =
     [Inr (False, ''X''), Inr (True, ''X'')]"
  by (simp add: run_defs cfg_same_def)

theorem process_task_documents_raises_counterexample:
  "documents taskT2 = Some [docA, docB]
   \<and> document_outcomes (upload_fails_for ''A'' (response_without_url (env_ok []))) cfg0
        [docA, docB] ''s'' w0 = [Inr (False, ''ERR''), Inl KeyError]
   \<and> fst (process_task_documents (upload_fails_for ''A'' (response_without_url (env_ok [])))
            cfg0 taskT2 ''s'' w0) = Inl KeyError
   \<and> document_outcomes (upload_fails_for ''A'' (env_ok [])) cfg_same [docA, docB] ''s'' w0 =
        [Inr (False, ''X''), Inr (True, ''X'')]
   \<and> fst (process_task_documents (upload_fails_for ''A'' (env_ok [])) cfg_same taskT2 ''s'' w0)
        = Inr (TASK_COMPLETE cfg_same)"
proof -
  have d: "documents taskT2 = Some [docA, docB]" by (simp add: taskT2_def)
  have r: "fst (process_task_documents (upload_fails_for ''A'' (response_without_url (env_ok [])))
            cfg0 taskT2 ''s'' w0) = Inl KeyError"
    by (simp add: run_defs env_defs)
  have x: "fst (process_task_documents (upload_fails_for ''A'' (env_ok [])) cfg_same taskT2
                  ''s'' w0) = Inr (TASK_COMPLETE cfg_same)"
    by (simp add: run_defs cfg_same_def)
  from d outcomes_T2_raise r outcomes_T2_same x show ?thesis by (intro conjI)
qed

text \<open>
  C7.  A task with an identifier whose document collection is absent or empty:
  \<open>process_task_documents\<close> returns \<open>Config.TASK_ERROR\<close> and leaves the world as it was,
  so no call is issued and no file, description or status is touched.
\<close>

theorem process_task_documents_no_documents:
  assumes "task_ID tsk = Some task_id"
    and "documents tsk = None \<or> documents tsk = Some []"
  shows "process_task_documents en cfg tsk sid w = (Inr (TASK_ERROR cfg), w)"
  using assms by (auto simp: process_task_documents_def)

theorem process_task_documents_no_documents_witness:
  "task_ID taskEmpty = Some ''T0''
   \<and> (documents taskEmpty = None \<or> documents taskEmpty = Some [])
   \<and> process_task_documents (upload_fails_for ''A'' (env_ok [])) cfg0 taskEmpty ''s'' w0
       = (Inr ''ERR'', w0)
   \<and> calls w0 = []"
proof -
  have h1: "task_ID taskEmpty = Some ''T0''"
    and h2: "documents taskEmpty = None \<or> documents taskEmpty = Some []"
    by (simp_all add: taskEmpty_def)
  show ?thesis
    using process_task_documents_no_documents
            [OF h1 h2, of "upload_fails_for ''A'' (env_ok [])" cfg0 "''s''" w0] h1 h2
    by (simp add: cfg0_def w0_def)
qed

subsection \<open>Run statistics\<close>

lemma process_task_try_counts:
  assumes "process_task_try en cfg tsk task_id sid st w = (Inr st', w')"
  shows "successful_tasks st' + failed_tasks st' = successful_tasks st + failed_tasks st + 1
         \<and> total_tasks st' = total_tasks st
         \<and> successful_tasks st \<le> successful_tasks st' \<and> failed_tasks st \<le> failed_tasks st'"
  using assms
  by (auto simp: process_task_try_def split: prod.splits sum.splits if_splits)

lemma process_tasks_loop_counts:
  "process_tasks_loop en cfg tasks sid st w = (Inr st', w') \<Longrightarrow>
   successful_tasks st' + failed_tasks st'
     = successful_tasks st + failed_tasks st + int (length tasks)
   \<and> total_tasks st' = total_tasks st
   \<and> successful_tasks st \<le> successful_tasks st' \<and> failed_tasks st \<le> failed_tasks st'"
proof (induction tasks arbitrary: st w)
  case Nil
  then show ?case by simp
next
  case (Cons tsk tasks)
  from Cons.prems obtain task_id where tid: "task_ID tsk = Some task_id"
    by (cases "task_ID tsk") simp_all
  let ?st1 = "st\<lparr>total_documents := total_documents st
                 + int (length (case documents tsk of None \<Rightarrow> [] | Some ds \<Rightarrow> ds))\<rparr>"
  obtain r w1 where tr: "process_task_try en cfg tsk task_id sid ?st1 w = (r, w1)"
    by (cases "process_task_try en cfg tsk task_id sid ?st1 w") blast
  show ?case
  proof (cases r)
    case (Inr st2)
    with Cons.prems tid tr
    have "process_tasks_loop en cfg tasks sid st2 w1 = (Inr st', w')"
      by (simp add: Let_def)
    from Cons.IH [OF this] process_task_try_counts [OF tr [unfolded Inr]]
    show ?thesis by simp
  next
    case (Inl e)
    let ?st2 = "?st1\<lparr>failed_tasks := failed_tasks ?st1 + 1\<rparr>"
    obtain r2 w2 where upd: "update_task_status en task_id (TASK_ERROR cfg) w1 = (r2, w2)"
      by (cases "update_task_status en task_id (TASK_ERROR cfg) w1") blast
    from Cons.prems tid tr Inl upd
    have "process_tasks_loop en cfg tasks sid ?st2 w2 = (Inr st', w')"
      by (simp add: Let_def split: if_splits sum.splits)
    from Cons.IH [OF this] show ?thesis by simp
  qed
qed

text \<open>
  C9.  When \<open>process_tasks\<close> returns its statistics, \<open>successful_tasks + failed_tasks\<close>
  equals \<open>total_tasks\<close>, which equals the length of the input list.
\<close>

theorem process_tasks_counts:
  assumes "process_tasks en cfg tasks sid w = (Inr st, w')"
  shows "successful_tasks st + failed_tasks st = total_tasks st
         \<and> total_tasks st = int (length tasks)"
  using process_tasks_loop_counts [OF assms [unfolded process_tasks_def]] by simp

lemma process_tasks_T2:
  "fst (process_tasks (upload_fails_for ''A'' (env_ok [])) cfg0 [taskT2, taskEmpty] ''s'' w0) =
     Inr \<lparr>total_tasks = 2, successful_tasks = 0, failed_tasks = 2, total_documents = 2\<rparr>"
  by code_simp

theorem process_tasks_counts_witness:
  "process_tasks (upload_fails_for ''A'' (env_ok [])) cfg0 [taskT2, taskEmpty] ''s'' w0 =
     (Inr \<lparr>total_tasks = 2, successful_tasks = 0, failed_tasks = 2, total_documents = 2\<rparr>,
      snd (process_tasks (upload_fails_for ''A'' (env_ok [])) cfg0 [taskT2, taskEmpty] ''s'' w0))
   \<and> successful_tasks
         \<lparr>total_tasks = 2, successful_tasks = 0, failed_tasks = 2, total_documents = 2\<rparr>
       + failed_tasks
         \<lparr>total_tasks = 2, successful_tasks = 0, failed_tasks = 2, total_documents = 2\<rparr>
       = total_tasks
         \<lparr>total_tasks = 2, successful_tasks = 0, failed_tasks = 2, total_documents = 2\<rparr>
   \<and> total_tasks
         \<lparr>total_tasks = 2, successful_tasks = 0, failed_tasks = 2, total_documents = 2\<rparr>
       = int (length [taskT2, taskEmpty])"
proof -
  have run: "process_tasks (upload_fails_for ''A'' (env_ok [])) cfg0 [taskT2, taskEmpty] ''s'' w0 =
     (Inr \<lparr>total_tasks = 2, successful_tasks = 0, failed_tasks = 2, total_documents = 2\<rparr>,
      snd (process_tasks (upload_fails_for ''A'' (env_ok [])) cfg0 [taskT2, taskEmpty] ''s'' w0))"
    using process_tasks_T2 by (simp add: prod_eq_iff)
  from process_tasks_counts [OF run] run show ?thesis by simp
qed

subsection \<open>Effects of the single steps\<close>

lemma new_calls_append: "calls w' = calls w @ xs \<Longrightarrow> new_calls w w' = xs"
  by (simp add: new_calls_def)

lemma cleanup_temp_file_frame:
  "calls (cleanup_temp_file en p w) = calls w"
  "descriptions (cleanup_temp_file en p w) = descriptions w"
  "statuses (cleanup_temp_file en p w) = statuses w"
  by (simp_all add: cleanup_temp_file_def)

lemma download_document_effect:
  assumes "download_document en i sid w = (r, w1)"
  shows "calls w1 = calls w @ [(CallDownload i sid, returned r)]"
    and "descriptions w1 = descriptions w" and "statuses w1 = statuses w" and "fs w1 = fs w"
  using assms
  by (auto simp: download_document_def record_call_def returned_def split: sum.splits)

lemma download_to_temp_file_effect:
  assumes "doc_ID doc = Some i" and "download_to_temp_file en doc sid w = (r, w1)"
  shows "\<exists>b. calls w1 = calls w @ [(CallDownload i sid, b)] \<and> (returned r \<longrightarrow> b)"
    and "descriptions w1 = descriptions w" and "statuses w1 = statuses w"
proof -
  obtain r0 w0 where dl: "download_document en i sid w = (r0, w0)"
    by (cases "download_document en i sid w") blast
  note eff = download_document_effect [OF dl]
  from assms dl have "calls w1 = calls w0 \<and> descriptions w1 = descriptions w0
      \<and> statuses w1 = statuses w0 \<and> (returned r \<longrightarrow> returned r0)"
    by (auto simp: download_to_temp_file_def Let_def returned_def
             split: sum.splits option.splits if_splits)
  with eff show "\<exists>b. calls w1 = calls w @ [(CallDownload i sid, b)] \<and> (returned r \<longrightarrow> b)"
    and "descriptions w1 = descriptions w" and "statuses w1 = statuses w"
    by auto
qed

lemma download_to_temp_file_path:
  assumes "download_to_temp_file en doc sid w = (Inr p, w1)"
  shows "p \<noteq> []" and "fs w1 p \<noteq> None"
  using assms
  by (auto simp: download_to_temp_file_def temp_name_def Let_def
           split: sum.splits option.splits if_splits prod.splits)

lemma upload_file_effect:
  assumes "upload_file en cfg p k n None w = (r, w1)"
  shows "calls w1 = calls w @ [(CallUpload p k n (CLOUDINARY_ASSET_FOLDER cfg), returned r)]"
    and "descriptions w1 = descriptions w" and "statuses w1 = statuses w" and "fs w1 = fs w"
  using assms
  by (auto simp: upload_file_def record_call_def returned_def Let_def split: sum.splits)

lemma update_document_effect:
  assumes "update_document en i u w = (r, w1)"
  shows "calls w1 = calls w @ [(CallUpdateDocument i u, returned r)]"
    and "descriptions w1 = (if returned r then (descriptions w)(i \<mapsto> u) else descriptions w)"
    and "statuses w1 = statuses w" and "fs w1 = fs w"
  using assms
  by (auto simp: update_document_def record_call_def returned_def split: sum.splits)

lemma update_task_status_effect:
  assumes "update_task_status en t s w = (r, w1)"
  shows "calls w1 = calls w @ [(CallUpdateTask t s, returned r)]"
    and "descriptions w1 = descriptions w"
    and "statuses w1 = (if returned r then (statuses w)(t \<mapsto> s) else statuses w)"
    and "fs w1 = fs w"
  using assms
  by (auto simp: update_task_status_def record_call_def returned_def split: sum.splits)

subsection \<open>The paths through \<open>process_document\<close>\<close>

text \<open>One lemma for each way through \<open>process_document\<close>: what it returns and the world it
  leaves, from the results of its steps.\<close>

lemma process_document_no_id:
  "doc_ID doc = None \<Longrightarrow> process_document en cfg doc sid w = (Inl KeyError, w)"
  by (simp add: process_document_def)

lemma path_download_raises:
  assumes "doc_ID doc = Some i" and "download_to_temp_file en doc sid w = (Inl e, w1)"
  shows "process_document en cfg doc sid w =
           (except_api_errors cfg e, w1)"
  using assms by (simp add: process_document_def process_document_try_def)

lemma path_upload_raises:
  assumes "doc_ID doc = Some i" and "download_to_temp_file en doc sid w = (Inr p, w1)"
    and "upload_file en cfg p i (get_name doc i) None w1
           = (Inl e, w2)"
  shows "process_document en cfg doc sid w =
           (except_api_errors cfg e, cleanup_temp_file en p w2)"
  using assms download_to_temp_file_path(1) [OF assms(2)]
  by (simp add: process_document_def process_document_try_def)

lemma path_no_secure_url:
  assumes "doc_ID doc = Some i" and "download_to_temp_file en doc sid w = (Inr p, w1)"
    and "upload_file en cfg p i (get_name doc i) None w1
           = (Inr None, w2)"
  shows "process_document en cfg doc sid w = (Inl KeyError, cleanup_temp_file en p w2)"
  using assms download_to_temp_file_path(1) [OF assms(2)]
  by (simp add: process_document_def process_document_try_def except_api_errors_def)

lemma path_update_raises:
  assumes "doc_ID doc = Some i" and "download_to_temp_file en doc sid w = (Inr p, w1)"
    and "upload_file en cfg p i (get_name doc i) None w1
           = (Inr (Some u), w2)"
    and "update_document en i u w2 = (Inl e, w3)"
  shows "process_document en cfg doc sid w =
           (except_api_errors cfg e, cleanup_temp_file en p w3)"
  using assms download_to_temp_file_path(1) [OF assms(2)]
  by (simp add: process_document_def process_document_try_def)

lemma path_round_trip:
  assumes "doc_ID doc = Some i" and "download_to_temp_file en doc sid w = (Inr p, w1)"
    and "upload_file en cfg p i (get_name doc i) None w1
           = (Inr (Some u), w2)"
    and "update_document en i u w2 = (Inr c, w3)"
  shows "process_document en cfg doc sid w =
           (Inr (True, TASK_COMPLETE cfg), cleanup_temp_file en p w3)"
  using assms download_to_temp_file_path(1) [OF assms(2)]
  by (simp add: process_document_def process_document_try_def)

lemma process_document_cases [consumes 1, case_names download_raises upload_raises
    no_secure_url update_raises round_trip]:
  assumes "doc_ID doc = Some i"
  obtains e w1 where "download_to_temp_file en doc sid w = (Inl e, w1)"
  | p w1 e w2 where "download_to_temp_file en doc sid w = (Inr p, w1)"
      and "upload_file en cfg p i (get_name doc i) None w1 = (Inl e, w2)"
  | p w1 w2 where "download_to_temp_file en doc sid w = (Inr p, w1)"
      and "upload_file en cfg p i (get_name doc i) None w1 = (Inr None, w2)"
  | p w1 u w2 e w3 where "download_to_temp_file en doc sid w = (Inr p, w1)"
      and "upload_file en cfg p i (get_name doc i) None w1 = (Inr (Some u), w2)"
      and "update_document en i u w2 = (Inl e, w3)"
  | p w1 u w2 c w3 where "download_to_temp_file en doc sid w = (Inr p, w1)"
      and "upload_file en cfg p i (get_name doc i) None w1 = (Inr (Some u), w2)"
      and "update_document en i u w2 = (Inr c, w3)"
proof -
  obtain r1 w1 where dl: "download_to_temp_file en doc sid w = (r1, w1)"
    by (cases "download_to_temp_file en doc sid w") blast
  show thesis
  proof (cases r1)
    case (Inl e)
    with dl that(1) show thesis by blast
  next
    case (Inr p)
    obtain r2 w2 where up: "upload_file en cfg p i (get_name doc i) None w1 = (r2, w2)"
      by (cases "upload_file en cfg p i (get_name doc i) None w1") blast
    show thesis
    proof (cases r2)
      case (Inl e)
      with dl Inr up that(2) show thesis by blast
    next
      case r2: (Inr resp)
      show thesis
      proof (cases resp)
        case None
        with dl Inr up r2 that(3) show thesis by blast
      next
        case (Some u)
        obtain r3 w3 where ud: "update_document en i u w2 = (r3, w3)"
          by (cases "update_document en i u w2") blast
        show thesis
        proof (cases r3)
          case (Inl e)
          with dl Inr up r2 Some ud that(4) show thesis by blast
        next
          case r3: (Inr c)
          with dl Inr up r2 Some ud that(5) show thesis by blast
        qed
      qed
    qed
  qed
qed

text \<open>The calls one document causes and what they do to the description fields, path by
  path.\<close>

lemma trace_download_raises:
  assumes "doc_ID doc = Some i" and "download_to_temp_file en doc sid w = (Inl e, w1)"
    and "process_document en cfg doc sid w = (r, w')"
  shows "\<exists>b. new_calls w w' = [(CallDownload i sid, b)]"
    and "descriptions w' = descriptions w"
  using assms(3) download_to_temp_file_effect [OF assms(1,2)]
  by (auto simp: path_download_raises [OF assms(1,2)] new_calls_append)

lemma trace_upload_raises:
  assumes "doc_ID doc = Some i" and "download_to_temp_file en doc sid w = (Inr p, w1)"
    and "upload_file en cfg p i (get_name doc i) None w1 = (Inl e, w2)"
    and "process_document en cfg doc sid w = (r, w')"
  shows "new_calls w w' = [(CallDownload i sid, True),
           (CallUpload p i (get_name doc i) (CLOUDINARY_ASSET_FOLDER cfg), False)]"
    and "descriptions w' = descriptions w"
  using assms(4) download_to_temp_file_effect [OF assms(1,2)] upload_file_effect [OF assms(3)]
  by (auto simp: path_upload_raises [OF assms(1,2,3)] new_calls_append
                 cleanup_temp_file_frame returned_def)

lemma trace_no_secure_url:
  assumes "doc_ID doc = Some i" and "download_to_temp_file en doc sid w = (Inr p, w1)"
    and "upload_file en cfg p i (get_name doc i) None w1 = (Inr None, w2)"
    and "process_document en cfg doc sid w = (r, w')"
  shows "new_calls w w' = [(CallDownload i sid, True),
           (CallUpload p i (get_name doc i) (CLOUDINARY_ASSET_FOLDER cfg), True)]"
    and "descriptions w' = descriptions w"
  using assms(4) download_to_temp_file_effect [OF assms(1,2)] upload_file_effect [OF assms(3)]
  by (auto simp: path_no_secure_url [OF assms(1,2,3)] new_calls_append
                 cleanup_temp_file_frame returned_def)

lemma trace_update:
  assumes "doc_ID doc = Some i" and "download_to_temp_file en doc sid w = (Inr p, w1)"
    and "upload_file en cfg p i (get_name doc i) None w1 = (Inr (Some u), w2)"
    and "update_document en i u w2 = (r3, w3)"
    and "process_document en cfg doc sid w = (r, w')"
  shows "new_calls w w' = [(CallDownload i sid, True),
           (CallUpload p i (get_name doc i) (CLOUDINARY_ASSET_FOLDER cfg), True),
           (CallUpdateDocument i u, returned r3)]"
    and "descriptions w' = (if returned r3 then (descriptions w)(i \<mapsto> u) else descriptions w)"
    and "returned r3 \<Longrightarrow> r = Inr (True, TASK_COMPLETE cfg)"
    and "\<not> returned r3 \<Longrightarrow> \<not> succeeded r"
proof -
  note d = download_to_temp_file_effect [OF assms(1,2)]
  note u = upload_file_effect [OF assms(3)]
  note t = update_document_effect [OF assms(4)]
  have w': "w' = cleanup_temp_file en p w3"
    and r: "r = (case r3 of Inl e \<Rightarrow> except_api_errors cfg e
                 | Inr c \<Rightarrow> Inr (True, TASK_COMPLETE cfg))"
    using assms(4,5) path_update_raises [OF assms(1,2,3)] path_round_trip [OF assms(1,2,3)]
    by (cases r3; simp)+
  from d(1) u(1) t(1)
  have "calls w3 = calls w @ [(CallDownload i sid, True),
           (CallUpload p i (get_name doc i) (CLOUDINARY_ASSET_FOLDER cfg), True),
           (CallUpdateDocument i u, returned r3)]"
    by (auto simp: returned_def)
  then show "new_calls w w' = [(CallDownload i sid, True),
           (CallUpload p i (get_name doc i) (CLOUDINARY_ASSET_FOLDER cfg), True),
           (CallUpdateDocument i u, returned r3)]"
    by (simp add: w' cleanup_temp_file_frame new_calls_append)
  show "descriptions w' = (if returned r3 then (descriptions w)(i \<mapsto> u) else descriptions w)"
    using d(2) u(2) t(2) by (simp add: w' cleanup_temp_file_frame)
  show "returned r3 \<Longrightarrow> r = Inr (True, TASK_COMPLETE cfg)"
    using r by (cases r3) (simp_all add: returned_def)
  show "\<not> returned r3 \<Longrightarrow> \<not> succeeded r"
    using r by (cases r3) (simp_all add: returned_def succeeded_def except_api_errors_def)
qed

lemma process_document_descriptions_frame:
  assumes "process_document en cfg doc sid w = (r, w')" and "doc_ID doc \<noteq> Some j"
  shows "descriptions w' j = descriptions w j"
proof (cases "doc_ID doc")
  case None
  with assms show ?thesis by (simp add: process_document_no_id)
next
  case (Some i)
  with assms(2) have ij: "i \<noteq> j" by simp
  from Some show ?thesis
  proof (cases rule: process_document_cases [where en = en and cfg = cfg and sid = sid and w = w])
    case (download_raises e w1)
    from trace_download_raises(2) [OF Some this assms(1)] show ?thesis by simp
  next
    case (upload_raises p w1 e w2)
    from trace_upload_raises(2) [OF Some this assms(1)] show ?thesis by simp
  next
    case (no_secure_url p w1 w2)
    from trace_no_secure_url(2) [OF Some this assms(1)] show ?thesis by simp
  next
    case (update_raises p w1 u w2 e w3)
    from trace_update(2) [OF Some this assms(1)] ij show ?thesis by simp
  next
    case (round_trip p w1 u w2 c w3)
    from trace_update(2) [OF Some this assms(1)] ij show ?thesis by simp
  qed
qed

lemma process_documents_descriptions_frame:
  "process_documents en cfg docs sid rs w = (r, w') \<Longrightarrow> Some j \<notin> doc_ID ` set docs \<Longrightarrow>
   descriptions w' j = descriptions w j"
proof (induction docs arbitrary: rs w)
  case Nil
  then show ?case by simp
next
  case (Cons d ds)
  obtain r1 w1 where pd: "process_document en cfg d sid w = (r1, w1)"
    by (cases "process_document en cfg d sid w") blast
  from Cons.prems(2) have nid: "doc_ID d \<noteq> Some j" and rest: "Some j \<notin> doc_ID ` set ds"
    by auto
  have fr: "descriptions w1 j = descriptions w j"
    using process_document_descriptions_frame [OF pd nid] .
  show ?case
  proof (cases r1)
    case (Inl e)
    with Cons.prems(1) pd fr show ?thesis by simp
  next
    case (Inr v)
    obtain b c where v: "v = (b, c)" by (cases v) blast
    from Cons.prems(1) pd Inr v
    have "process_documents en cfg ds sid (rs @ [b]) w1 = (r, w')" by simp
    from Cons.IH [OF this rest] fr show ?thesis by simp
  qed
qed

text \<open>
  C5.  For a document with an identifier: a document-update call appears among the calls
  of \<open>process_document\<close> only as the call right after the successful upload of that
  same document; when the upload raised, no update call is issued and every description
  field is as before; no other document's description is touched; a successful round
  trip leaves the returned URL in the document's description; a failed document lets
  the loop go on with its siblings, and whatever happens to later siblings with other
  identifiers, the description stays (nothing is rolled back).
\<close>

theorem document_update_follows_upload:
  assumes "doc_ID doc = Some i" and "process_document en cfg doc sid w = (r, w')"
  shows "(\<forall>j u b. (CallUpdateDocument j u, b) \<in> set (new_calls w w') \<longrightarrow>
            j = i \<and> (\<exists>p n f. new_calls w w' =
                        [(CallDownload i sid, True), (CallUpload p i n f, True),
                         (CallUpdateDocument i u, b)]))
       \<and> (\<forall>p k n f. (CallUpload p k n f, False) \<in> set (new_calls w w') \<longrightarrow>
            descriptions w' = descriptions w
            \<and> (\<forall>j u b. (CallUpdateDocument j u, b) \<notin> set (new_calls w w')))
       \<and> (\<forall>j. j \<noteq> i \<longrightarrow> descriptions w' j = descriptions w j)
       \<and> (\<forall>c. r = Inr (True, c) \<longrightarrow>
            (\<exists>u. (CallUpdateDocument i u, True) \<in> set (new_calls w w')
                 \<and> descriptions w' i = Some u))
       \<and> (\<forall>b c docs rs. r = Inr (b, c) \<longrightarrow>
            process_documents en cfg (doc # docs) sid rs w
              = process_documents en cfg docs sid (rs @ [b]) w')
       \<and> (\<forall>docs rs r2 w2.
            Some i \<notin> doc_ID ` set docs
            \<and> process_documents en cfg docs sid rs w' = (r2, w2) \<longrightarrow>
            descriptions w2 i = descriptions w' i)"
proof -
  have abd: "(\<forall>j u b. (CallUpdateDocument j u, b) \<in> set (new_calls w w') \<longrightarrow>
            j = i \<and> (\<exists>p n f. new_calls w w' =
                        [(CallDownload i sid, True), (CallUpload p i n f, True),
                         (CallUpdateDocument i u, b)]))
       \<and> (\<forall>p k n f. (CallUpload p k n f, False) \<in> set (new_calls w w') \<longrightarrow>
            descriptions w' = descriptions w
            \<and> (\<forall>j u b. (CallUpdateDocument j u, b) \<notin> set (new_calls w w')))
       \<and> (\<forall>c. r = Inr (True, c) \<longrightarrow>
            (\<exists>u. (CallUpdateDocument i u, True) \<in> set (new_calls w w')
                 \<and> descriptions w' i = Some u))"
    using assms(1)
  proof (cases rule: process_document_cases [where en = en and cfg = cfg and sid = sid and w = w])
    case (download_raises e w1)
    from trace_download_raises [OF assms(1) this assms(2)]
      path_download_raises [OF assms(1) this, of cfg] assms(2)
    show ?thesis by (auto simp: except_api_errors_def)
  next
    case (upload_raises p w1 e w2)
    from trace_upload_raises [OF assms(1) this assms(2)]
      path_upload_raises [OF assms(1) this] assms(2)
    show ?thesis by (auto simp: except_api_errors_def)
  next
    case (no_secure_url p w1 w2)
    from trace_no_secure_url [OF assms(1) this assms(2)]
      path_no_secure_url [OF assms(1) this] assms(2)
    show ?thesis by auto
  next
    case (update_raises p w1 u w2 e w3)
    from trace_update [OF assms(1) this assms(2)]
    show ?thesis by (auto simp: returned_def succeeded_def)
  next
    case (round_trip p w1 u w2 c w3)
    from trace_update [OF assms(1) this assms(2)]
    show ?thesis by (auto simp: returned_def)
  qed
  have c: "\<forall>j. j \<noteq> i \<longrightarrow> descriptions w' j = descriptions w j"
    using process_document_descriptions_frame [OF assms(2)] assms(1) by simp
  have e: "\<forall>b c docs rs. r = Inr (b, c) \<longrightarrow>
            process_documents en cfg (doc # docs) sid rs w
              = process_documents en cfg docs sid (rs @ [b]) w'"
    using assms(2) by simp
  have f: "\<forall>docs rs r2 w2.
            Some i \<notin> doc_ID ` set docs
            \<and> process_documents en cfg docs sid rs w' = (r2, w2) \<longrightarrow>
            descriptions w2 i = descriptions w' i"
    using process_documents_descriptions_frame by blast
  from abd c e f show ?thesis by (intro conjI) (elim conjE, assumption)+
qed

text \<open>
  C10.  For a document with an identifier and no \<open>'name'\<close> key: every upload call that
  \<open>process_document\<close> issues carries the identifier both as public id and as display
  name, and once the download step has staged the file the upload call is issued.
\<close>

theorem upload_display_name_defaults_to_id:
  assumes "doc_ID doc = Some i" and "doc_name doc = None"
    and "process_document en cfg doc sid w = (r, w')"
  shows "(\<forall>p k n f b. (CallUpload p k n f, b) \<in> set (new_calls w w') \<longrightarrow> k = i \<and> n = i)
       \<and> (\<forall>p w1. download_to_temp_file en doc sid w = (Inr p, w1) \<longrightarrow>
            (\<exists>b. (CallUpload p i i (CLOUDINARY_ASSET_FOLDER cfg), b) \<in> set (new_calls w w')))"
proof -
  have n: "get_name doc i = i" using assms(2) by (simp add: get_name_def)
  from assms(1) show ?thesis
  proof (cases rule: process_document_cases [where en = en and cfg = cfg and sid = sid and w = w])
    case (download_raises e w1)
    from trace_download_raises [OF assms(1) this assms(3)] this
    show ?thesis by auto
  next
    case (upload_raises p w1 e w2)
    from trace_upload_raises [OF assms(1) this assms(3)] this(1)
    show ?thesis by (auto simp: n)
  next
    case (no_secure_url p w1 w2)
    from trace_no_secure_url [OF assms(1) this assms(3)] this(1)
    show ?thesis by (auto simp: n)
  next
    case (update_raises p w1 u w2 e w3)
    from trace_update [OF assms(1) this assms(3)] this(1)
    show ?thesis by (auto simp: n)
  next
    case (round_trip p w1 u w2 c w3)
    from trace_update [OF assms(1) this assms(3)] this(1)
    show ?thesis by (auto simp: n)
  qed
qed

subsection \<open>The staging file and the failure policy\<close>

text \<open>
  C2 (as amended).  For a document with an identifier: when the download raises, or the
  temporary file cannot be created, \<open>process_document\<close> leaves the filesystem as it was;
  and once the download step has returned the path of the staged file, whatever the
  upload and the update then do (return, raise a modeled error, raise anything else), if
  \<open>os.remove\<close> goes through when the \<open>finally\<close> clause calls it, the file is absent when
  \<open>process_document\<close> is left, and if \<open>os.remove\<close> fails there, the file stays.
\<close>

theorem staging_file_removed:
  assumes "doc_ID doc = Some i"
  shows "(\<forall>p. fst (download_to_temp_file en doc sid w) = Inr p
            \<and> os_remove en
                 (snd (snd (process_document_try en cfg doc i (get_name doc i) sid w))) p \<longrightarrow>
            fs (snd (process_document en cfg doc sid w)) p = None)
       \<and> (\<forall>e w1. download_document en i sid w = (Inl e, w1) \<longrightarrow>
            fs (snd (process_document en cfg doc sid w)) = fs w)
       \<and> (\<forall>c w1. download_document en i sid w = (Inr c, w1) \<and> temp_suffix en w1 = None \<longrightarrow>
            fs (snd (process_document en cfg doc sid w)) = fs w)
       \<and> (\<forall>p. fst (download_to_temp_file en doc sid w) = Inr p
            \<and> \<not> os_remove en
                 (snd (snd (process_document_try en cfg doc i (get_name doc i) sid w))) p \<longrightarrow>
            fs (snd (process_document en cfg doc sid w)) p \<noteq> None)"
proof -
  have staged: "fs (snd (process_document en cfg doc sid w)) p = None"
    if p: "fst (download_to_temp_file en doc sid w) = Inr p"
      and rm: "os_remove en
                 (snd (snd (process_document_try en cfg doc i (get_name doc i) sid w))) p"
    for p
  proof -
    obtain w1 where dl: "download_to_temp_file en doc sid w = (Inr p, w1)"
      using p by (cases "download_to_temp_file en doc sid w") simp
    obtain r0 tp w2 where tr:
        "process_document_try en cfg doc i (get_name doc i) sid w = (r0, tp, w2)"
      by (cases "process_document_try en cfg doc i (get_name doc i) sid w") auto
    have tp: "tp = Some p"
      using tr dl
      by (auto simp: process_document_try_def split: prod.splits sum.splits option.splits)
    have ne: "p \<noteq> []" using download_to_temp_file_path(1) [OF dl] .
    have "snd (process_document en cfg doc sid w) = cleanup_temp_file en p w2"
      using assms tr tp ne by (simp add: process_document_def)
    moreover have "os_remove en w2 p" using rm tr by simp
    ultimately show ?thesis by (simp add: cleanup_temp_file_def)
  qed
  have failed: "fs (snd (process_document en cfg doc sid w)) = fs w"
    if dl: "download_document en i sid w = (Inl e, w1)" for e w1
  proof -
    have "download_to_temp_file en doc sid w = (Inl e, w1)"
      using assms dl by (simp add: download_to_temp_file_def)
    from path_download_raises [OF assms this, of cfg] download_document_effect(4) [OF dl]
    show ?thesis by simp
  qed
  have nofile: "fs (snd (process_document en cfg doc sid w)) = fs w"
    if dl: "download_document en i sid w = (Inr c, w1)" and tmp: "temp_suffix en w1 = None"
    for c w1
  proof -
    have "download_to_temp_file en doc sid w = (Inl OSError, w1)"
      using assms dl tmp by (simp add: download_to_temp_file_def)
    from path_download_raises [OF assms this, of cfg] download_document_effect(4) [OF dl]
    show ?thesis by simp
  qed
  have stays: "fs (snd (process_document en cfg doc sid w)) p \<noteq> None"
    if p: "fst (download_to_temp_file en doc sid w) = Inr p"
      and rm: "\<not> os_remove en
                 (snd (snd (process_document_try en cfg doc i (get_name doc i) sid w))) p"
    for p
  proof -
    obtain w1 where dl: "download_to_temp_file en doc sid w = (Inr p, w1)"
      using p by (cases "download_to_temp_file en doc sid w") simp
    obtain r0 tp w2 where tr:
        "process_document_try en cfg doc i (get_name doc i) sid w = (r0, tp, w2)"
      by (cases "process_document_try en cfg doc i (get_name doc i) sid w") auto
    have tp: "tp = Some p"
      using tr dl
      by (auto simp: process_document_try_def split: prod.splits sum.splits option.splits)
    have ne: "p \<noteq> []" using download_to_temp_file_path(1) [OF dl] .
    have there: "fs w1 p \<noteq> None" using download_to_temp_file_path(2) [OF dl] .
    obtain r2 wu where up: "upload_file en cfg p i (get_name doc i) None w1 = (r2, wu)"
      by (cases "upload_file en cfg p i (get_name doc i) None w1") blast
    have fu: "fs wu = fs w1" using upload_file_effect(4) [OF up] .
    have "fs w2 = fs w1"
    proof (cases r2)
      case (Inl e)
      with tr dl up have "w2 = wu" by (simp add: process_document_try_def)
      with fu show ?thesis by simp
    next
      case (Inr resp)
      show ?thesis
      proof (cases resp)
        case None
        with tr dl up Inr have "w2 = wu" by (simp add: process_document_try_def)
        with fu show ?thesis by simp
      next
        case (Some u)
        obtain r3 w3 where ud: "update_document en i u wu = (r3, w3)"
          by (cases "update_document en i u wu") blast
        with tr dl up Inr Some have "w2 = w3"
          by (cases r3) (simp_all add: process_document_try_def)
        with update_document_effect(4) [OF ud] fu show ?thesis by simp
      qed
    qed
    with there have "fs w2 p \<noteq> None" by simp
    moreover have "snd (process_document en cfg doc sid w) = cleanup_temp_file en p w2"
      using assms tr tp ne by (simp add: process_document_def)
    moreover have "\<not> os_remove en w2 p" using rm tr by simp
    ultimately show ?thesis by (simp add: cleanup_temp_file_def)
  qed
  from staged failed nofile stays show ?thesis by blast
qed

lemma download_docA:
  "download_to_temp_file (upload_fails_for ''A'' (env_ok [])) docA ''s'' w0 =
     (Inr ''/tmp/tmpx'',
      w0\<lparr>fs := [''/tmp/tmpx'' \<mapsto> ''bytes of A''], calls := [(CallDownload ''A'' ''s'', True)]\<rparr>)"
  by (simp add: run_defs)

theorem staging_file_removed_witness:
  "doc_ID docA = Some ''A''
   \<and> fst (download_to_temp_file (upload_fails_for ''A'' (env_ok [])) docA ''s'' w0)
       = Inr ''/tmp/tmpx''
   \<and> fs (snd (download_to_temp_file (upload_fails_for ''A'' (env_ok [])) docA ''s'' w0))
        ''/tmp/tmpx'' = Some ''bytes of A''
   \<and> fst (process_document (upload_fails_for ''A'' (env_ok [])) cfg0 docA ''s'' w0)
       = Inr (False, ''ERR'')
   \<and> fs (snd (process_document (upload_fails_for ''A'' (env_ok [])) cfg0 docA ''s'' w0))
        ''/tmp/tmpx'' = None"
proof -
  have h1: "doc_ID docA = Some ''A''" by (simp add: docA_def)
  have h2: "fst (download_to_temp_file (upload_fails_for ''A'' (env_ok [])) docA ''s'' w0)
              = Inr ''/tmp/tmpx''"
    by (simp add: download_docA)
  have h3: "os_remove (upload_fails_for ''A'' (env_ok []))
              (snd (snd (process_document_try (upload_fails_for ''A'' (env_ok [])) cfg0 docA
                           ''A'' (get_name docA ''A'') ''s'' w0))) ''/tmp/tmpx''"
    by (simp add: upload_fails_for_def env_ok_def)
  have r: "fst (process_document (upload_fails_for ''A'' (env_ok [])) cfg0 docA ''s'' w0)
             = Inr (False, ''ERR'')"
    by (simp add: run_defs)
  have f: "fs (snd (download_to_temp_file (upload_fails_for ''A'' (env_ok [])) docA ''s'' w0))
             ''/tmp/tmpx'' = Some ''bytes of A''"
    by (simp add: download_docA)
  have "fs (snd (process_document (upload_fails_for ''A'' (env_ok [])) cfg0 docA ''s'' w0))
          ''/tmp/tmpx'' = None"
    using staging_file_removed [OF h1, of "upload_fails_for ''A'' (env_ok [])" "''s''" w0 cfg0,
            THEN conjunct1] h2 h3
    by blast
  with h1 h2 f r show ?thesis by (intro conjI)
qed

theorem staging_file_left_counterexample:
  "fst (process_document (remove_fails (env_ok [])) cfg0 docA ''s'' w0) = Inr (True, ''CPL'')
   \<and> fs w0 ''/tmp/tmpx'' = None
   \<and> fs (snd (process_document (remove_fails (env_ok [])) cfg0 docA ''s'' w0)) ''/tmp/tmpx''
       = Some ''bytes of A''"
  by (simp add: run_defs env_defs)

text \<open>When writing the downloaded bytes raises, the file has been created, its path never
  reaches \<open>temp_file_path\<close>, and the \<open>finally\<close> clause has nothing to remove.\<close>

lemma staging_file_left_when_write_fails:
  "fst (process_document (write_fails (env_ok [])) cfg0 docA ''s'' w0) = Inl OSError
   \<and> fs w0 ''/tmp/tmpx'' = None
   \<and> fs (snd (process_document (write_fails (env_ok [])) cfg0 docA ''s'' w0)) ''/tmp/tmpx''
       = Some []"
  by (simp add: run_defs env_defs)

text \<open>
  C3 (as amended).  For a document with an identifier: a request failure of the
  download, any \<open>Exception\<close> of the upload, and a request failure of the description
  update are each turned into \<open>(False, Config.TASK_ERROR)\<close>; when all three steps return,
  the result is \<open>(True, Config.TASK_COMPLETE)\<close>; an exception of the \<open>try\<close> block other than
  \<open>WorkfrontAPIError\<close> and \<open>CloudinaryServiceError\<close> propagates, and nothing else does.
\<close>

theorem process_document_failure_policy:
  assumes "doc_ID doc = Some i"
  shows "(http_download en w i sid = Inl RequestException \<longrightarrow>
            fst (process_document en cfg doc sid w) = Inr (False, TASK_ERROR cfg))
       \<and> (\<forall>p w1 e. download_to_temp_file en doc sid w = (Inr p, w1)
            \<and> uploader_upload en w1 p (CLOUDINARY_ASSET_FOLDER cfg) (get_name doc i) i = Inl e
            \<and> is_Exception e \<longrightarrow>
            fst (process_document en cfg doc sid w) = Inr (False, TASK_ERROR cfg))
       \<and> (\<forall>p w1 u w2. download_to_temp_file en doc sid w = (Inr p, w1)
            \<and> upload_file en cfg p i (get_name doc i) None w1 = (Inr (Some u), w2)
            \<and> http_put_document en w2 i u = Inl RequestException \<longrightarrow>
            fst (process_document en cfg doc sid w) = Inr (False, TASK_ERROR cfg))
       \<and> (\<forall>p w1 u w2 c. download_to_temp_file en doc sid w = (Inr p, w1)
            \<and> upload_file en cfg p i (get_name doc i) None w1 = (Inr (Some u), w2)
            \<and> http_put_document en w2 i u = Inr c \<longrightarrow>
            fst (process_document en cfg doc sid w) = Inr (True, TASK_COMPLETE cfg))
       \<and> (\<forall>e tp w2. process_document_try en cfg doc i (get_name doc i) sid w = (Inl e, tp, w2)
            \<and> e \<noteq> WorkfrontAPIError \<and> e \<noteq> CloudinaryServiceError \<longrightarrow>
            fst (process_document en cfg doc sid w) = Inl e)
       \<and> (\<forall>e. fst (process_document en cfg doc sid w) = Inl e \<longrightarrow>
            e \<noteq> WorkfrontAPIError \<and> e \<noteq> CloudinaryServiceError)"
proof -
  have d: "http_download en w i sid = Inl RequestException \<longrightarrow>
            fst (process_document en cfg doc sid w) = Inr (False, TASK_ERROR cfg)"
  proof
    assume "http_download en w i sid = Inl RequestException"
    then have "\<exists>w1. download_to_temp_file en doc sid w = (Inl WorkfrontAPIError, w1)"
      using assms by (simp add: download_to_temp_file_def download_document_def)
    then obtain w1 where "download_to_temp_file en doc sid w = (Inl WorkfrontAPIError, w1)" ..
    from path_download_raises [OF assms this]
    show "fst (process_document en cfg doc sid w) = Inr (False, TASK_ERROR cfg)"
      by (simp add: except_api_errors_def)
  qed
  have u: "\<forall>p w1 e. download_to_temp_file en doc sid w = (Inr p, w1)
            \<and> uploader_upload en w1 p (CLOUDINARY_ASSET_FOLDER cfg) (get_name doc i) i = Inl e
            \<and> is_Exception e \<longrightarrow>
            fst (process_document en cfg doc sid w) = Inr (False, TASK_ERROR cfg)"
  proof (intro allI impI, elim conjE)
    fix p w1 e
    assume dl: "download_to_temp_file en doc sid w = (Inr p, w1)"
      and up: "uploader_upload en w1 p (CLOUDINARY_ASSET_FOLDER cfg) (get_name doc i) i = Inl e"
      and ex: "is_Exception e"
    have "\<exists>w2. upload_file en cfg p i (get_name doc i) None w1 = (Inl CloudinaryServiceError, w2)"
      using up ex by (simp add: upload_file_def)
    then obtain w2 where
      "upload_file en cfg p i (get_name doc i) None w1 = (Inl CloudinaryServiceError, w2)" ..
    from path_upload_raises [OF assms dl this]
    show "fst (process_document en cfg doc sid w) = Inr (False, TASK_ERROR cfg)"
      by (simp add: except_api_errors_def)
  qed
  have t: "\<forall>p w1 u w2. download_to_temp_file en doc sid w = (Inr p, w1)
            \<and> upload_file en cfg p i (get_name doc i) None w1 = (Inr (Some u), w2)
            \<and> http_put_document en w2 i u = Inl RequestException \<longrightarrow>
            fst (process_document en cfg doc sid w) = Inr (False, TASK_ERROR cfg)"
  proof (intro allI impI, elim conjE)
    fix p w1 u w2
    assume dl: "download_to_temp_file en doc sid w = (Inr p, w1)"
      and up: "upload_file en cfg p i (get_name doc i) None w1 = (Inr (Some u), w2)"
      and put: "http_put_document en w2 i u = Inl RequestException"
    have "\<exists>w3. update_document en i u w2 = (Inl WorkfrontAPIError, w3)"
      using put by (simp add: update_document_def)
    then obtain w3 where "update_document en i u w2 = (Inl WorkfrontAPIError, w3)" ..
    from path_update_raises [OF assms dl up this]
    show "fst (process_document en cfg doc sid w) = Inr (False, TASK_ERROR cfg)"
      by (simp add: except_api_errors_def)
  qed
  have s: "\<forall>p w1 u w2 c. download_to_temp_file en doc sid w = (Inr p, w1)
            \<and> upload_file en cfg p i (get_name doc i) None w1 = (Inr (Some u), w2)
            \<and> http_put_document en w2 i u = Inr c \<longrightarrow>
            fst (process_document en cfg doc sid w) = Inr (True, TASK_COMPLETE cfg)"
  proof (intro allI impI, elim conjE)
    fix p w1 u w2 c
    assume dl: "download_to_temp_file en doc sid w = (Inr p, w1)"
      and up: "upload_file en cfg p i (get_name doc i) None w1 = (Inr (Some u), w2)"
      and put: "http_put_document en w2 i u = Inr c"
    have "\<exists>w3. update_document en i u w2 = (Inr c, w3)"
      using put by (simp add: update_document_def)
    then obtain w3 where "update_document en i u w2 = (Inr c, w3)" ..
    from path_round_trip [OF assms dl up this]
    show "fst (process_document en cfg doc sid w) = Inr (True, TASK_COMPLETE cfg)"
      by simp
  qed
  have g: "\<forall>e tp w2. process_document_try en cfg doc i (get_name doc i) sid w = (Inl e, tp, w2)
            \<and> e \<noteq> WorkfrontAPIError \<and> e \<noteq> CloudinaryServiceError \<longrightarrow>
            fst (process_document en cfg doc sid w) = Inl e"
    using assms
    by (auto simp: process_document_def except_api_errors_def Let_def split: option.splits)
  have p: "\<forall>e. fst (process_document en cfg doc sid w) = Inl e \<longrightarrow>
            e \<noteq> WorkfrontAPIError \<and> e \<noteq> CloudinaryServiceError"
    using assms
    by (auto simp: process_document_def except_api_errors_def Let_def
             split: option.splits prod.splits sum.splits if_splits)
  from d u t s g p show ?thesis by (intro conjI)
qed

theorem process_document_propagates_counterexample:
  "fst (process_document (staging_fails (env_ok [])) cfg0 docA ''s'' w0) = Inl OSError
   \<and> fst (process_document (response_without_url (env_ok [])) cfg0 docA ''s'' w0) = Inl KeyError"
  by (simp add: run_defs env_defs)

lemma upload_docA:
  "uploader_upload (upload_fails_for ''A'' (env_ok [])) w1 ''/tmp/tmpx''
     (CLOUDINARY_ASSET_FOLDER cfg0) (get_name docA ''A'') ''A'' = Inl OSError"
  by (simp add: upload_fails_for_def env_ok_def)

theorem process_document_failure_policy_witness:
  "doc_ID docA = Some ''A''
   \<and> fst (download_to_temp_file (upload_fails_for ''A'' (env_ok [])) docA ''s'' w0)
       = Inr ''/tmp/tmpx''
   \<and> is_Exception OSError
   \<and> fst (process_document (upload_fails_for ''A'' (env_ok [])) cfg0 docA ''s'' w0)
       = Inr (False, ''ERR'')"
proof -
  have h1: "doc_ID docA = Some ''A''" by (simp add: docA_def)
  have e: "TASK_ERROR cfg0 = ''ERR''" by (simp add: cfg0_def)
  have "fst (process_document (upload_fails_for ''A'' (env_ok [])) cfg0 docA ''s'' w0)
          = Inr (False, TASK_ERROR cfg0)"
    using process_document_failure_policy
            [OF h1, of "upload_fails_for ''A'' (env_ok [])" w0 "''s''" cfg0]
          download_docA upload_docA
    by (metis is_Exception.simps(6))
  then show ?thesis using h1 e by (simp add: download_docA)
qed

lemma process_docA:
  "process_document (upload_fails_for ''A'' (env_ok [])) cfg0 docA ''s'' w0 =
     (Inr (False, ''ERR''),
      w0\<lparr>calls := [(CallDownload ''A'' ''s'', True),
                   (CallUpload ''/tmp/tmpx'' ''A'' ''a.pdf'' ''workfront'', False)]\<rparr>)"
  by (simp add: run_defs)

lemma process_T2:
  "fst (process_task_documents (upload_fails_for ''A'' (env_ok [])) cfg0 taskT2 ''s'' w0)
     = Inr ''ERR''"
  "descriptions
     (snd (process_task_documents (upload_fails_for ''A'' (env_ok [])) cfg0 taskT2 ''s'' w0))
     ''A'' = None"
  "descriptions
     (snd (process_task_documents (upload_fails_for ''A'' (env_ok [])) cfg0 taskT2 ''s'' w0))
     ''B'' = Some ''https://res.example/B''"
  by (simp_all add: run_defs)

theorem document_update_follows_upload_witness:
  "doc_ID docA = Some ''A''
   \<and> process_document (upload_fails_for ''A'' (env_ok [])) cfg0 docA ''s'' w0 =
       (Inr (False, ''ERR''),
        w0\<lparr>calls := [(CallDownload ''A'' ''s'', True),
                     (CallUpload ''/tmp/tmpx'' ''A'' ''a.pdf'' ''workfront'', False)]\<rparr>)
   \<and> descriptions
        (w0\<lparr>calls := [(CallDownload ''A'' ''s'', True),
                     (CallUpload ''/tmp/tmpx'' ''A'' ''a.pdf'' ''workfront'', False)]\<rparr>)
       = descriptions w0
   \<and> fst (process_task_documents (upload_fails_for ''A'' (env_ok [])) cfg0 taskT2 ''s'' w0)
       = Inr ''ERR''
   \<and> descriptions
        (snd (process_task_documents (upload_fails_for ''A'' (env_ok [])) cfg0 taskT2 ''s'' w0))
        ''A'' = None
   \<and> descriptions
        (snd (process_task_documents (upload_fails_for ''A'' (env_ok [])) cfg0 taskT2 ''s'' w0))
        ''B'' = Some ''https://res.example/B''"
proof -
  define wA where "wA = w0\<lparr>calls := [(CallDownload ''A'' ''s'', True),
                     (CallUpload ''/tmp/tmpx'' ''A'' ''a.pdf'' ''workfront'', False)]\<rparr>"
  have h1: "doc_ID docA = Some ''A''" by (simp add: docA_def)
  have pd: "process_document (upload_fails_for ''A'' (env_ok [])) cfg0 docA ''s'' w0 =
              (Inr (False, ''ERR''), wA)"
    unfolding wA_def by (rule process_docA)
  have m: "(CallUpload ''/tmp/tmpx'' ''A'' ''a.pdf'' ''workfront'', False)
             \<in> set (new_calls w0 wA)"
    by (simp add: new_calls_def w0_def wA_def)
  have d: "descriptions wA = descriptions w0"
    using document_update_follows_upload [OF h1 pd, THEN conjunct2, THEN conjunct1] m
    by blast
  from h1 process_docA d [unfolded wA_def] process_T2 show ?thesis
    by (intro conjI)
qed

lemma process_docB:
  "process_document (env_ok []) cfg0 docB ''s'' w0 =
     (Inr (True, ''CPL''),
      w0\<lparr>descriptions := [''B'' \<mapsto> ''https://res.example/B''],
          calls := [(CallDownload ''B'' ''s'', True),
                    (CallUpload ''/tmp/tmpx'' ''B'' ''B'' ''workfront'', True),
                    (CallUpdateDocument ''B'' ''https://res.example/B'', True)]\<rparr>)"
  by (simp add: run_defs)

theorem upload_display_name_defaults_to_id_witness:
  "doc_ID docB = Some ''B'' \<and> doc_name docB = None
   \<and> process_document (env_ok []) cfg0 docB ''s'' w0 =
       (Inr (True, ''CPL''),
        w0\<lparr>descriptions := [''B'' \<mapsto> ''https://res.example/B''],
            calls := [(CallDownload ''B'' ''s'', True),
                      (CallUpload ''/tmp/tmpx'' ''B'' ''B'' ''workfront'', True),
                      (CallUpdateDocument ''B'' ''https://res.example/B'', True)]\<rparr>)
   \<and> (CallUpload ''/tmp/tmpx'' ''B'' ''B'' ''workfront'', True)
       \<in> set (new_calls w0
            (w0\<lparr>descriptions := [''B'' \<mapsto> ''https://res.example/B''],
                calls := [(CallDownload ''B'' ''s'', True),
                          (CallUpload ''/tmp/tmpx'' ''B'' ''B'' ''workfront'', True),
                          (CallUpdateDocument ''B'' ''https://res.example/B'', True)]\<rparr>))"
proof -
  define wB where "wB = w0\<lparr>descriptions := [''B'' \<mapsto> ''https://res.example/B''],
            calls := [(CallDownload ''B'' ''s'', True),
                      (CallUpload ''/tmp/tmpx'' ''B'' ''B'' ''workfront'', True),
                      (CallUpdateDocument ''B'' ''https://res.example/B'', True)]\<rparr>"
  have h1: "doc_ID docB = Some ''B''" and h2: "doc_name docB = None"
    by (simp_all add: docB_def)
  have pd: "process_document (env_ok []) cfg0 docB ''s'' w0 = (Inr (True, ''CPL''), wB)"
    unfolding wB_def by (rule process_docB)
  have dl: "download_to_temp_file (env_ok []) docB ''s'' w0 =
              (Inr ''/tmp/tmpx'', snd (download_to_temp_file (env_ok []) docB ''s'' w0))"
    by (simp add: run_defs)
  have f: "CLOUDINARY_ASSET_FOLDER cfg0 = ''workfront''" by (simp add: cfg0_def)
  have "\<exists>b. (CallUpload ''/tmp/tmpx'' ''B'' ''B'' (CLOUDINARY_ASSET_FOLDER cfg0), b)
              \<in> set (new_calls w0 wB)"
    using upload_display_name_defaults_to_id [OF h1 h2 pd, THEN conjunct2] dl by blast
  then have m: "(CallUpload ''/tmp/tmpx'' ''B'' ''B'' ''workfront'', True)
                  \<in> set (new_calls w0 wB)"
    by (simp add: f new_calls_def w0_def wB_def)
  from h1 h2 process_docB m [unfolded wB_def] show ?thesis
    by (intro conjI)
qed

subsection \<open>Call traces\<close>

lemma task_updates_append: "task_updates (xs @ ys) = task_updates xs @ task_updates ys"
  by (induction xs rule: task_updates.induct) simp_all

lemma new_calls_same: "new_calls w w = []"
  by (simp add: new_calls_def)

lemma new_calls_trans:
  assumes "calls w1 = calls w @ new_calls w w1" and "calls w2 = calls w1 @ new_calls w1 w2"
  shows "calls w2 = calls w @ new_calls w w2"
    and "new_calls w w2 = new_calls w w1 @ new_calls w1 w2"
proof -
  from assms have "calls w2 = calls w @ (new_calls w w1 @ new_calls w1 w2)"
    by (metis append.assoc)
  then show "new_calls w w2 = new_calls w w1 @ new_calls w1 w2"
    by (rule new_calls_append)
  with \<open>calls w2 = calls w @ (new_calls w w1 @ new_calls w1 w2)\<close>
  show "calls w2 = calls w @ new_calls w w2" by simp
qed

lemma process_document_calls:
  assumes "process_document en cfg doc sid w = (r, w')"
  shows "calls w' = calls w @ new_calls w w'" and "task_updates (new_calls w w') = []"
proof -
  have "calls w' = calls w @ new_calls w w' \<and> task_updates (new_calls w w') = []"
  proof (cases "doc_ID doc")
    case None
    with assms show ?thesis by (simp add: process_document_no_id new_calls_same)
  next
    case (Some i)
    then show ?thesis
    proof (cases rule: process_document_cases
                         [where en = en and cfg = cfg and sid = sid and w = w])
      case (download_raises e w1)
      from download_to_temp_file_effect(1) [OF Some this] assms
        path_download_raises [OF Some this, of cfg]
        trace_download_raises(1) [OF Some this assms]
      show ?thesis by (auto simp: new_calls_def)
    next
      case (upload_raises p w1 e w2)
      from download_to_temp_file_effect(1) [OF Some this(1)] upload_file_effect(1) [OF this(2)]
        assms path_upload_raises [OF Some this]
        trace_upload_raises(1) [OF Some this assms]
      show ?thesis by (auto simp: new_calls_def cleanup_temp_file_frame)
    next
      case (no_secure_url p w1 w2)
      from download_to_temp_file_effect(1) [OF Some this(1)] upload_file_effect(1) [OF this(2)]
        assms path_no_secure_url [OF Some this]
        trace_no_secure_url(1) [OF Some this assms]
      show ?thesis by (auto simp: new_calls_def cleanup_temp_file_frame)
    next
      case (update_raises p w1 u w2 e w3)
      from download_to_temp_file_effect(1) [OF Some this(1)] upload_file_effect(1) [OF this(2)]
        update_document_effect(1) [OF this(3)]
        assms path_update_raises [OF Some this]
        trace_update(1) [OF Some this assms]
      show ?thesis by (auto simp: new_calls_def cleanup_temp_file_frame)
    next
      case (round_trip p w1 u w2 c w3)
      from download_to_temp_file_effect(1) [OF Some this(1)] upload_file_effect(1) [OF this(2)]
        update_document_effect(1) [OF this(3)]
        assms path_round_trip [OF Some this]
        trace_update(1) [OF Some this assms]
      show ?thesis by (auto simp: new_calls_def cleanup_temp_file_frame)
    qed
  qed
  then show "calls w' = calls w @ new_calls w w'" and "task_updates (new_calls w w') = []"
    by simp_all
qed

lemma process_documents_calls:
  "process_documents en cfg docs sid rs w = (r, w') \<Longrightarrow>
   calls w' = calls w @ new_calls w w' \<and> task_updates (new_calls w w') = []"
proof (induction docs arbitrary: rs w)
  case Nil
  then show ?case by (simp add: new_calls_same)
next
  case (Cons d ds)
  obtain r1 w1 where pd: "process_document en cfg d sid w = (r1, w1)"
    by (cases "process_document en cfg d sid w") blast
  note one = process_document_calls [OF pd]
  show ?case
  proof (cases r1)
    case (Inl e)
    with Cons.prems pd one show ?thesis by simp
  next
    case (Inr v)
    obtain b c where v: "v = (b, c)" by (cases v) blast
    from Cons.prems pd Inr v
    have "process_documents en cfg ds sid (rs @ [b]) w1 = (r, w')" by simp
    from Cons.IH [OF this] one new_calls_trans [of w1 w w']
    show ?thesis by (simp add: task_updates_append)
  qed
qed

lemma process_task_documents_calls:
  assumes "process_task_documents en cfg tsk sid w = (r, w')"
  shows "calls w' = calls w @ new_calls w w'" and "task_updates (new_calls w w') = []"
proof -
  have "calls w' = calls w @ new_calls w w' \<and> task_updates (new_calls w w') = []"
  proof (cases "task_ID tsk")
    case None
    with assms show ?thesis by (simp add: process_task_documents_def new_calls_same)
  next
    case (Some task_id)
    let ?docs = "case documents tsk of None \<Rightarrow> [] | Some ds \<Rightarrow> ds"
    show ?thesis
    proof (cases "?docs = []")
      case True
      with assms Some show ?thesis by (simp add: process_task_documents_def new_calls_same)
    next
      case False
      obtain r1 w1 where lp: "process_documents en cfg ?docs sid [] w = (r1, w1)"
        by (cases "process_documents en cfg ?docs sid [] w") blast
      with assms Some False have "w' = w1"
        by (auto simp: process_task_documents_def split: sum.splits)
      with process_documents_calls [OF lp] show ?thesis by simp
    qed
  qed
  then show "calls w' = calls w @ new_calls w w'" and "task_updates (new_calls w w') = []"
    by simp_all
qed

lemma update_task_status_calls:
  assumes "update_task_status en t s w = (r, w')"
  shows "calls w' = calls w @ new_calls w w'" and "task_updates (new_calls w w') = [t]"
  using update_task_status_effect(1) [OF assms] by (simp_all add: new_calls_def)

lemma process_task_try_calls:
  assumes "process_task_try en cfg tsk task_id sid st w = (r, w')"
  shows "calls w' = calls w @ new_calls w w'"
    and "set (task_updates (new_calls w w')) \<subseteq> {task_id}"
proof -
  obtain r1 w1 where ag: "process_task_documents en cfg tsk sid w = (r1, w1)"
    by (cases "process_task_documents en cfg tsk sid w") blast
  note a = process_task_documents_calls [OF ag]
  have "calls w' = calls w @ new_calls w w'
        \<and> set (task_updates (new_calls w w')) \<subseteq> {task_id}"
  proof (cases r1)
    case (Inl e)
    with assms ag a show ?thesis by (simp add: process_task_try_def)
  next
    case (Inr final_status)
    obtain r2 w2 where up: "update_task_status en task_id final_status w1 = (r2, w2)"
      by (cases "update_task_status en task_id final_status w1") blast
    with assms ag Inr have "w' = w2"
      by (auto simp: process_task_try_def split: sum.splits)
    with update_task_status_calls [OF up] a new_calls_trans [of w1 w w2]
    show ?thesis by (simp add: task_updates_append)
  qed
  then show "calls w' = calls w @ new_calls w w'"
    and "set (task_updates (new_calls w w')) \<subseteq> {task_id}"
    by simp_all
qed

lemma process_tasks_loop_calls:
  "process_tasks_loop en cfg tasks sid st w = (r, w') \<Longrightarrow>
   calls w' = calls w @ new_calls w w'
   \<and> (\<forall>t \<in> set (task_updates (new_calls w w')). Some t \<in> task_ID ` set tasks)"
proof (induction tasks arbitrary: st w)
  case Nil
  then show ?case by (simp add: new_calls_same)
next
  case (Cons tsk tasks)
  show ?case
  proof (cases "task_ID tsk")
    case None
    with Cons.prems show ?thesis by (simp add: new_calls_same)
  next
    case (Some task_id)
    let ?st1 = "st\<lparr>total_documents := total_documents st
                 + int (length (case documents tsk of None \<Rightarrow> [] | Some ds \<Rightarrow> ds))\<rparr>"
    obtain r1 w1 where tr: "process_task_try en cfg tsk task_id sid ?st1 w = (r1, w1)"
      by (cases "process_task_try en cfg tsk task_id sid ?st1 w") blast
    note t = process_task_try_calls [OF tr]
    show ?thesis
    proof (cases r1)
      case (Inr st2)
      with Cons.prems Some tr
      have "process_tasks_loop en cfg tasks sid st2 w1 = (r, w')"
        by (simp add: Let_def)
      from Cons.IH [OF this] t new_calls_trans [of w1 w w'] Some
      show ?thesis by (auto simp: task_updates_append)
    next
      case (Inl e)
      show ?thesis
      proof (cases "is_Exception e")
        case False
        with Cons.prems Some tr Inl have "w' = w1" by (simp add: Let_def)
        with t Some show ?thesis by auto
      next
        case True
        let ?st2 = "?st1\<lparr>failed_tasks := failed_tasks ?st1 + 1\<rparr>"
        obtain r2 w2 where up: "update_task_status en task_id (TASK_ERROR cfg) w1 = (r2, w2)"
          by (cases "update_task_status en task_id (TASK_ERROR cfg) w1") blast
        note u = update_task_status_calls [OF up]
        have step: "calls w2 = calls w @ new_calls w w2"
          "new_calls w w2 = new_calls w w1 @ new_calls w1 w2"
          using new_calls_trans [OF t(1) u(1)] by simp_all
        have upd: "set (task_updates (new_calls w w2)) \<subseteq> {task_id}"
          using t(2) u(2) step(2) by (simp add: task_updates_append)
        show ?thesis
        proof (cases "r2 = Inl KeyboardInterrupt")
          case True
          with Cons.prems Some tr Inl \<open>is_Exception e\<close> up have "w' = w2"
            by (simp add: Let_def)
          with step(1) upd Some show ?thesis by auto
        next
          case False
          with Cons.prems Some tr Inl \<open>is_Exception e\<close> up
          have "process_tasks_loop en cfg tasks sid ?st2 w2 = (r, w')"
            by (cases r2; cases "projl r2"; simp add: Let_def)
          from Cons.IH [OF this] step(1) upd new_calls_trans [of w2 w w'] Some
          show ?thesis by (auto simp: task_updates_append)
        qed
      qed
    qed
  qed
qed

subsection \<open>Interruption\<close>

lemma is_Exception_iff: "is_Exception e \<longleftrightarrow> e \<noteq> KeyboardInterrupt"
  by (cases e) simp_all

lemma request_error_interrupt: "request_error e = KeyboardInterrupt \<longleftrightarrow> e = KeyboardInterrupt"
  by (cases e) simp_all

lemma download_to_temp_file_not_interrupted:
  assumes "uninterrupted en" and "download_to_temp_file en doc sid w = (Inl e, w1)"
  shows "e \<noteq> KeyboardInterrupt"
  using assms
  by (auto simp: uninterrupted_def download_to_temp_file_def download_document_def Let_def
                 request_error_interrupt
           split: option.splits sum.splits if_splits)

lemma upload_file_not_interrupted:
  assumes "uninterrupted en" and "upload_file en cfg p k n a w = (Inl e, w1)"
  shows "e \<noteq> KeyboardInterrupt"
  using assms
  by (auto simp: uninterrupted_def upload_file_def Let_def is_Exception_iff
           split: sum.splits if_splits)

lemma update_document_not_interrupted:
  assumes "uninterrupted en" and "update_document en i u w = (Inl e, w1)"
  shows "e \<noteq> KeyboardInterrupt"
  using assms
  by (auto simp: uninterrupted_def update_document_def request_error_interrupt
           split: sum.splits)

lemma update_task_status_not_interrupted:
  assumes "uninterrupted en" and "update_task_status en t s w = (r, w1)"
  shows "r \<noteq> Inl KeyboardInterrupt"
  using assms
  by (auto simp: uninterrupted_def update_task_status_def request_error_interrupt
           split: sum.splits)

lemma except_api_errors_interrupt:
  "except_api_errors cfg e = Inl e' \<Longrightarrow> e' = e"
  "Inl e' = except_api_errors cfg e \<Longrightarrow> e' = e"
  by (simp_all add: except_api_errors_def split: if_splits)

lemma process_document_not_interrupted:
  assumes "uninterrupted en" and "process_document en cfg doc sid w = (Inl e, w')"
  shows "e \<noteq> KeyboardInterrupt"
proof (cases "doc_ID doc")
  case None
  with assms(2) show ?thesis by (simp add: process_document_no_id)
next
  case (Some i)
  then show ?thesis
  proof (cases rule: process_document_cases
                       [where en = en and cfg = cfg and sid = sid and w = w])
    case (download_raises e1 w1)
    from path_download_raises [OF Some this, of cfg] assms(2)
      download_to_temp_file_not_interrupted [OF assms(1) this]
    show ?thesis by (auto dest: except_api_errors_interrupt)
  next
    case (upload_raises p w1 e1 w2)
    from path_upload_raises [OF Some this] assms(2)
      upload_file_not_interrupted [OF assms(1) this(2)]
    show ?thesis by (auto dest: except_api_errors_interrupt)
  next
    case (no_secure_url p w1 w2)
    from path_no_secure_url [OF Some this] assms(2) show ?thesis by simp
  next
    case (update_raises p w1 u w2 e1 w3)
    from path_update_raises [OF Some this] assms(2)
      update_document_not_interrupted [OF assms(1) this(3)]
    show ?thesis by (auto dest: except_api_errors_interrupt)
  next
    case (round_trip p w1 u w2 c w3)
    from path_round_trip [OF Some this] assms(2) show ?thesis by simp
  qed
qed

lemma process_documents_not_interrupted:
  "uninterrupted en \<Longrightarrow> process_documents en cfg docs sid rs w = (Inl e, w') \<Longrightarrow>
   e \<noteq> KeyboardInterrupt"
proof (induction docs arbitrary: rs w)
  case Nil
  then show ?case by simp
next
  case (Cons d ds)
  obtain r1 w1 where pd: "process_document en cfg d sid w = (r1, w1)"
    by (cases "process_document en cfg d sid w") blast
  show ?case
  proof (cases r1)
    case (Inl e1)
    with Cons.prems(2) pd have "e = e1" by simp
    with process_document_not_interrupted [OF Cons.prems(1) pd [unfolded Inl]]
    show ?thesis by simp
  next
    case (Inr v)
    obtain b c where v: "v = (b, c)" by (cases v) blast
    from Cons.prems(2) pd Inr v
    have "process_documents en cfg ds sid (rs @ [b]) w1 = (Inl e, w')" by simp
    from Cons.IH [OF Cons.prems(1) this] show ?thesis .
  qed
qed

lemma process_task_documents_not_interrupted:
  assumes "uninterrupted en" and "process_task_documents en cfg tsk sid w = (Inl e, w')"
  shows "e \<noteq> KeyboardInterrupt"
proof (cases "task_ID tsk")
  case None
  with assms(2) show ?thesis by (simp add: process_task_documents_def)
next
  case (Some task_id)
  let ?docs = "case documents tsk of None \<Rightarrow> [] | Some ds \<Rightarrow> ds"
  obtain r1 w1 where lp: "process_documents en cfg ?docs sid [] w = (r1, w1)"
    by (cases "process_documents en cfg ?docs sid [] w") blast
  from assms(2) Some lp have "r1 = Inl e"
    by (auto simp: process_task_documents_def Let_def split: if_splits sum.splits)
  with process_documents_not_interrupted [OF assms(1)] lp show ?thesis by blast
qed

lemma process_task_try_not_interrupted:
  assumes "uninterrupted en" and "process_task_try en cfg tsk task_id sid st w = (Inl e, w')"
  shows "e \<noteq> KeyboardInterrupt"
proof -
  obtain r1 w1 where ag: "process_task_documents en cfg tsk sid w = (r1, w1)"
    by (cases "process_task_documents en cfg tsk sid w") blast
  show ?thesis
  proof (cases r1)
    case (Inl e1)
    with assms(2) ag have "e = e1" by (simp add: process_task_try_def)
    with process_task_documents_not_interrupted [OF assms(1) ag [unfolded Inl]]
    show ?thesis by simp
  next
    case (Inr final_status)
    obtain r2 w2 where up: "update_task_status en task_id final_status w1 = (r2, w2)"
      by (cases "update_task_status en task_id final_status w1") blast
    with assms(2) ag Inr have "r2 = Inl e"
      by (auto simp: process_task_try_def split: sum.splits)
    with update_task_status_not_interrupted [OF assms(1) up] show ?thesis by auto
  qed
qed

lemma process_tasks_loop_returns:
  "uninterrupted en \<Longrightarrow> \<forall>t \<in> set tasks. task_ID t \<noteq> None \<Longrightarrow>
   \<exists>st' w'. process_tasks_loop en cfg tasks sid st w = (Inr st', w')"
proof (induction tasks arbitrary: st w)
  case Nil
  then show ?case by simp
next
  case (Cons tsk tasks)
  from Cons.prems(2) obtain task_id where tid: "task_ID tsk = Some task_id"
    and rest: "\<forall>t \<in> set tasks. task_ID t \<noteq> None"
    by auto
  let ?st1 = "st\<lparr>total_documents := total_documents st
               + int (length (case documents tsk of None \<Rightarrow> [] | Some ds \<Rightarrow> ds))\<rparr>"
  obtain r1 w1 where tr: "process_task_try en cfg tsk task_id sid ?st1 w = (r1, w1)"
    by (cases "process_task_try en cfg tsk task_id sid ?st1 w") blast
  show ?case
  proof (cases r1)
    case (Inr st2)
    with tid tr Cons.IH [OF Cons.prems(1) rest, of st2 w1]
    show ?thesis by (simp add: Let_def)
  next
    case (Inl e)
    let ?st2 = "?st1\<lparr>failed_tasks := failed_tasks ?st1 + 1\<rparr>"
    obtain r2 w2 where up: "update_task_status en task_id (TASK_ERROR cfg) w1 = (r2, w2)"
      by (cases "update_task_status en task_id (TASK_ERROR cfg) w1") blast
    have e: "is_Exception e"
      using process_task_try_not_interrupted [OF Cons.prems(1) tr [unfolded Inl]]
      by (simp add: is_Exception_iff)
    have r2: "r2 \<noteq> Inl KeyboardInterrupt"
      using update_task_status_not_interrupted [OF Cons.prems(1) up] .
    have "process_tasks_loop en cfg (tsk # tasks) sid st w
            = process_tasks_loop en cfg tasks sid ?st2 w2"
      using tid tr Inl e up r2
      by (cases r2) (auto simp: Let_def is_Exception_iff)
    with Cons.IH [OF Cons.prems(1) rest, of ?st2 w2] show ?thesis by simp
  qed
qed

text \<open>
  C6.  For a task with an identifier: when \<open>process_task_documents\<close> or the status update
  that follows it raises an \<open>Exception\<close>, and the write of \<open>Config.TASK_ERROR\<close> is not itself
  interrupted, the loop counts the task as failed, issues the status update with
  \<open>Config.TASK_ERROR\<close> for this task, and goes on with the remaining tasks; and when no
  call is interrupted and the remaining tasks have identifiers, the loop runs to its
  end and returns its statistics.
\<close>

theorem process_tasks_survives_task_fault:
  assumes "task_ID tsk = Some task_id"
    and "process_task_documents en cfg tsk sid w = (Inl e, w1)
         \<or> (\<exists>final_status wa. process_task_documents en cfg tsk sid w = (Inr final_status, wa)
               \<and> update_task_status en task_id final_status wa = (Inl e, w1))"
    and "is_Exception e"
    and "update_task_status en task_id (TASK_ERROR cfg) w1 = (r2, w2)"
    and "r2 \<noteq> Inl KeyboardInterrupt"
  shows "process_tasks_loop en cfg (tsk # tasks) sid st w =
           process_tasks_loop en cfg tasks sid
             (st\<lparr>total_documents := total_documents st
                    + int (length (case documents tsk of None \<Rightarrow> [] | Some ds \<Rightarrow> ds)),
                 failed_tasks := failed_tasks st + 1\<rparr>) w2
       \<and> new_calls w1 w2 = [(CallUpdateTask task_id (TASK_ERROR cfg), returned r2)]
       \<and> (uninterrupted en \<and> (\<forall>t \<in> set tasks. task_ID t \<noteq> None) \<longrightarrow>
            (\<exists>st' w'. process_tasks_loop en cfg (tsk # tasks) sid st w = (Inr st', w')
                      \<and> failed_tasks st + 1 \<le> failed_tasks st'))"
proof -
  let ?st1 = "st\<lparr>total_documents := total_documents st
               + int (length (case documents tsk of None \<Rightarrow> [] | Some ds \<Rightarrow> ds))\<rparr>"
  let ?st2 = "st\<lparr>total_documents := total_documents st
                    + int (length (case documents tsk of None \<Rightarrow> [] | Some ds \<Rightarrow> ds)),
                 failed_tasks := failed_tasks st + 1\<rparr>"
  have tr: "process_task_try en cfg tsk task_id sid ?st1 w = (Inl e, w1)"
    using assms(2) by (auto simp: process_task_try_def)
  have step: "process_tasks_loop en cfg (tsk # tasks) sid st w
                = process_tasks_loop en cfg tasks sid ?st2 w2"
    using assms(1,3,4,5) tr
    by (cases r2) (auto simp: Let_def is_Exception_iff)
  have trace: "new_calls w1 w2 = [(CallUpdateTask task_id (TASK_ERROR cfg), returned r2)]"
    using update_task_status_effect(1) [OF assms(4)] by (rule new_calls_append)
  have total: "\<exists>st' w'. process_tasks_loop en cfg (tsk # tasks) sid st w = (Inr st', w')
                      \<and> failed_tasks st + 1 \<le> failed_tasks st'"
    if un: "uninterrupted en" and ids: "\<forall>t \<in> set tasks. task_ID t \<noteq> None"
  proof -
    from process_tasks_loop_returns [OF un ids, of cfg sid ?st2 w2]
    obtain st' w' where run: "process_tasks_loop en cfg tasks sid ?st2 w2 = (Inr st', w')"
      by blast
    from process_tasks_loop_counts [OF run] have "failed_tasks st + 1 \<le> failed_tasks st'"
      by simp
    with run step show ?thesis by simp
  qed
  from step trace total show ?thesis by blast
qed

subsection \<open>The run\<close>

lemma main_try_unfold:
  "main_try en cfg w =
     (case get_workfront_session_id en cfg w of
        (Inl e, w1) \<Rightarrow> (Inl e, w1)
      | (Inr sid, w1) \<Rightarrow>
          (case search_tasks en (TASK_STATUS_UPLOAD cfg) (MAX_TASKS_PER_RUN cfg) True w1 of
             (Inl e, w2) \<Rightarrow> if e = WorkfrontAPIError then (Inr 0, w2) else (Inl e, w2)
           | (Inr tasks, w2) \<Rightarrow>
               if filter has_documents tasks = [] then (Inr 0, w2)
               else (case process_tasks en cfg (filter has_documents tasks) sid w2 of
                       (Inl e, w3) \<Rightarrow> (Inl e, w3)
                     | (Inr st, w3) \<Rightarrow> (Inr (if failed_tasks st > 0 then 1 else 0), w3))))"
  by (auto simp: main_try_def find_tasks_for_upload_def split: prod.splits sum.splits)

lemma process_tasks_failed_nonneg:
  assumes "process_tasks en cfg tasks sid w = (Inr st, w')"
  shows "0 \<le> failed_tasks st"
  using process_tasks_loop_counts [OF assms [unfolded process_tasks_def]] by simp

lemma process_tasks_Nil:
  "process_tasks en cfg [] sid w =
     (Inr \<lparr>total_tasks = 0, successful_tasks = 0, failed_tasks = 0, total_documents = 0\<rparr>, w)"
  by (simp add: process_tasks_def)

text \<open>
  C4 (as amended).  The exit code of \<open>main\<close> is 0, 1 or 130.  It is 130 exactly when the
  configuration is valid and a \<open>KeyboardInterrupt\<close> is raised by the authentication, the
  task search or the processing of the tasks.  It is 0 exactly when the configuration is
  valid, the authentication returns, and either the task search raises
  \<open>WorkfrontAPIError\<close> (which \<open>find_tasks_for_upload\<close> turns into an empty list), or it
  returns no task with documents, or the processing of the tasks with documents returns
  with no failed task.  In every other case it is 1.
\<close>

theorem main_exit_code:
  "fst (main en cfg w) \<in> {0, 1, 130}
   \<and> (fst (main en cfg w) = 130 \<longleftrightarrow>
        validate_configuration cfg
        \<and> (fst (get_workfront_session_id en cfg w) = Inl KeyboardInterrupt
           \<or> (\<exists>sid w1 r w2.
                 get_workfront_session_id en cfg w = (Inr sid, w1)
                 \<and> search_tasks en (TASK_STATUS_UPLOAD cfg) (MAX_TASKS_PER_RUN cfg) True w1
                     = (r, w2)
                 \<and> (r = Inl KeyboardInterrupt
                    \<or> (\<exists>tasks. r = Inr tasks
                         \<and> fst (process_tasks en cfg (filter has_documents tasks) sid w2)
                             = Inl KeyboardInterrupt)))))
   \<and> (fst (main en cfg w) = 0 \<longleftrightarrow>
        validate_configuration cfg
        \<and> (\<exists>sid w1 r w2.
              get_workfront_session_id en cfg w = (Inr sid, w1)
              \<and> search_tasks en (TASK_STATUS_UPLOAD cfg) (MAX_TASKS_PER_RUN cfg) True w1
                  = (r, w2)
              \<and> (r = Inl WorkfrontAPIError
                 \<or> (\<exists>tasks. r = Inr tasks
                      \<and> (filter has_documents tasks = []
                         \<or> (\<exists>st w3. process_tasks en cfg (filter has_documents tasks) sid w2
                                        = (Inr st, w3)
                                     \<and> failed_tasks st = 0))))))"
  (is "?R \<and> (?L130 \<longleftrightarrow> ?V \<and> ?I) \<and> (?L0 \<longleftrightarrow> ?V \<and> ?C)")
proof (cases "validate_configuration cfg")
  case False
  then show ?thesis by (simp add: main_def)
next
  case True
  obtain ra w1 where a: "get_workfront_session_id en cfg w = (ra, w1)"
    by (cases "get_workfront_session_id en cfg w") blast
  show ?thesis
  proof (cases ra)
    case (Inl e)
    with True a show ?thesis by (simp add: main_def main_try_unfold)
  next
    case (Inr sid)
    obtain rs w2 where s: "search_tasks en (TASK_STATUS_UPLOAD cfg) (MAX_TASKS_PER_RUN cfg)
                             True w1 = (rs, w2)"
      by (cases "search_tasks en (TASK_STATUS_UPLOAD cfg) (MAX_TASKS_PER_RUN cfg) True w1") blast
    show ?thesis
    proof (cases rs)
      case (Inl e)
      with True a Inr s show ?thesis by (simp add: main_def main_try_unfold)
    next
      case tasks: (Inr tasks)
      obtain rp w3 where p: "process_tasks en cfg (filter has_documents tasks) sid w2 = (rp, w3)"
        by (cases "process_tasks en cfg (filter has_documents tasks) sid w2") blast
      show ?thesis
      proof (cases "filter has_documents tasks = []")
        case Nil: True
        with True a Inr s tasks show ?thesis
          by (simp add: main_def main_try_unfold process_tasks_Nil)
      next
        case False
        show ?thesis
        proof (cases rp)
          case (Inl e)
          with True a Inr s tasks p False show ?thesis
            by (simp add: main_def main_try_unfold)
        next
          case st: (Inr st)
          from process_tasks_failed_nonneg [OF p [unfolded st]]
          have "failed_tasks st > 0 \<longleftrightarrow> failed_tasks st \<noteq> 0" by arith
          with True a Inr s tasks p False st show ?thesis
            by (simp add: main_def main_try_unfold)
        qed
      qed
    qed
  qed
qed

lemma get_workfront_session_id_effect:
  assumes "get_workfront_session_id en cfg w = (r, w1)"
  shows "calls w1 = calls w @ new_calls w w1" and "task_updates (new_calls w w1) = []"
  using assms
  by (auto simp: get_workfront_session_id_def record_call_def new_calls_def
           split: if_splits sum.splits)

lemma search_tasks_effect:
  assumes "search_tasks en status limit inc w = (r, w1)"
  shows "calls w1 = calls w @ new_calls w w1" and "task_updates (new_calls w w1) = []"
  using assms
  by (auto simp: search_tasks_def record_call_def new_calls_def split: sum.splits)

text \<open>
  C8.  When the authentication returns and the search returns a list of tasks:
  \<open>find_tasks_for_upload\<close> gives exactly the tasks of that list whose \<open>hasDocuments\<close> flag
  is true, in order; the run hands exactly this list to \<open>process_tasks\<close> (or stops with
  exit code 0 when it is empty); the statistics \<open>process_tasks\<close> returns for it have
  \<open>total_tasks\<close> equal to its length; and every task-status update issued during the run
  is for a task of the search result whose flag is true.
\<close>

theorem only_tasks_with_documents_are_processed:
  assumes "get_workfront_session_id en cfg w = (Inr sid, w1)"
    and "search_tasks en (TASK_STATUS_UPLOAD cfg) (MAX_TASKS_PER_RUN cfg) True w1
           = (Inr tasks, w2)"
  shows "find_tasks_for_upload en cfg w1 = (Inr (filter has_documents tasks), w2)
       \<and> main_try en cfg w =
           (if filter has_documents tasks = [] then (Inr 0, w2)
            else (case process_tasks en cfg (filter has_documents tasks) sid w2 of
                    (Inl e, w3) \<Rightarrow> (Inl e, w3)
                  | (Inr st, w3) \<Rightarrow> (Inr (if failed_tasks st > 0 then 1 else 0), w3)))
       \<and> (\<forall>st w3. process_tasks en cfg (filter has_documents tasks) sid w2 = (Inr st, w3) \<longrightarrow>
            total_tasks st = int (length (filter has_documents tasks)))
       \<and> (\<forall>t \<in> set (task_updates (new_calls w (snd (main_try en cfg w)))).
            \<exists>tsk \<in> set tasks. has_documents tsk \<and> task_ID tsk = Some t)"
proof -
  let ?F = "filter has_documents tasks"
  have find: "find_tasks_for_upload en cfg w1 = (Inr ?F, w2)"
    using assms(2) by (simp add: find_tasks_for_upload_def)
  have run: "main_try en cfg w =
           (if ?F = [] then (Inr 0, w2)
            else (case process_tasks en cfg ?F sid w2 of
                    (Inl e, w3) \<Rightarrow> (Inl e, w3)
                  | (Inr st, w3) \<Rightarrow> (Inr (if failed_tasks st > 0 then 1 else 0), w3)))"
    using assms by (simp add: main_try_unfold)
  have total: "\<forall>st w3. process_tasks en cfg ?F sid w2 = (Inr st, w3) \<longrightarrow>
            total_tasks st = int (length ?F)"
    using process_tasks_loop_counts [of en cfg ?F sid] by (auto simp: process_tasks_def)
  note a = get_workfront_session_id_effect [OF assms(1)]
  note s = search_tasks_effect [OF assms(2)]
  have pre: "calls w2 = calls w @ new_calls w w2" "task_updates (new_calls w w2) = []"
    using new_calls_trans [OF a(1) s(1)] a(2) s(2) by (simp_all add: task_updates_append)
  have upd: "\<forall>t \<in> set (task_updates (new_calls w (snd (main_try en cfg w)))).
            \<exists>tsk \<in> set tasks. has_documents tsk \<and> task_ID tsk = Some t"
  proof (cases "?F = []")
    case True
    with run pre show ?thesis by simp
  next
    case False
    obtain rp w3 where p: "process_tasks en cfg ?F sid w2 = (rp, w3)"
      by (cases "process_tasks en cfg ?F sid w2") blast
    with run False have w3: "snd (main_try en cfg w) = w3"
      by (cases rp) simp_all
    from process_tasks_loop_calls [OF p [unfolded process_tasks_def]]
    have l: "calls w3 = calls w2 @ new_calls w2 w3"
      and u: "\<forall>t \<in> set (task_updates (new_calls w2 w3)). Some t \<in> task_ID ` set ?F"
      by simp_all
    from new_calls_trans [OF pre(1) l] pre(2)
    have "task_updates (new_calls w w3) = task_updates (new_calls w2 w3)"
      by (simp add: task_updates_append)
    with u w3 show ?thesis by (auto simp: image_iff) metis
  qed
  from find run total upd show ?thesis by (intro conjI)
qed

subsection \<open>Example runs\<close>

lemma valid_cfg0: "validate_configuration cfg0"
  by (simp add: validate_configuration_def validate_all_def validate_workfront_config_def
                validate_cloudinary_config_def missing_def cfg0_def)

lemma auth_ok:
  "get_workfront_session_id (env_ok tasks) cfg0 w0 =
     (Inr ''session'', w0\<lparr>calls := [(CallExchange, True)]\<rparr>)"
  by (simp add: get_workfront_session_id_def missing_def cfg0_def env_ok_def record_call_def
                w0_def)

lemma auth_search_fails:
  "get_workfront_session_id (search_fails (env_ok [])) cfg0 w0 =
     (Inr ''session'', w0\<lparr>calls := [(CallExchange, True)]\<rparr>)"
  by (simp add: get_workfront_session_id_def missing_def cfg0_def env_ok_def record_call_def
                w0_def search_fails_def)

lemma search_raises:
  "search_tasks (search_fails (env_ok [])) (TASK_STATUS_UPLOAD cfg0) (MAX_TASKS_PER_RUN cfg0)
     True (w0\<lparr>calls := [(CallExchange, True)]\<rparr>) =
     (Inl WorkfrontAPIError,
      w0\<lparr>calls := [(CallExchange, True), (CallSearch ''UPL'' 100 True, False)]\<rparr>)"
  by (simp add: search_tasks_def search_fails_def env_ok_def record_call_def cfg0_def w0_def)

theorem failed_search_exits_zero_counterexample:
  "validate_configuration cfg0
   \<and> get_workfront_session_id (search_fails (env_ok [])) cfg0 w0 =
       (Inr ''session'', w0\<lparr>calls := [(CallExchange, True)]\<rparr>)
   \<and> fst (search_tasks (search_fails (env_ok [])) (TASK_STATUS_UPLOAD cfg0)
            (MAX_TASKS_PER_RUN cfg0) True (w0\<lparr>calls := [(CallExchange, True)]\<rparr>))
       = Inl WorkfrontAPIError
   \<and> fst (main (search_fails (env_ok [])) cfg0 w0) = 0"
  using valid_cfg0 auth_search_fails search_raises
  by (simp add: main_def main_try_unfold)

theorem main_exit_code_witness:
  "validate_configuration cfg0
   \<and> get_workfront_session_id (search_fails (env_ok [])) cfg0 w0 =
       (Inr ''session'', w0\<lparr>calls := [(CallExchange, True)]\<rparr>)
   \<and> search_tasks (search_fails (env_ok [])) (TASK_STATUS_UPLOAD cfg0) (MAX_TASKS_PER_RUN cfg0)
       True (w0\<lparr>calls := [(CallExchange, True)]\<rparr>) =
       (Inl WorkfrontAPIError,
        w0\<lparr>calls := [(CallExchange, True), (CallSearch ''UPL'' 100 True, False)]\<rparr>)
   \<and> fst (main (search_fails (env_ok [])) cfg0 w0) = 0"
proof -
  have "fst (main (search_fails (env_ok [])) cfg0 w0) = 0"
    using main_exit_code [of "search_fails (env_ok [])" cfg0 w0, THEN conjunct2, THEN conjunct2]
          valid_cfg0 auth_search_fails search_raises
    by blast
  with valid_cfg0 auth_search_fails search_raises show ?thesis by (intro conjI)
qed

lemma aggregator_raises:
  "fst (process_task_documents (response_without_url (env_ok [])) cfg0 taskT2 ''s'' w0)
     = Inl KeyError"
  by (simp add: run_defs env_defs)

lemma error_update_returns:
  "fst (update_task_status (response_without_url (env_ok [])) ''T2'' (TASK_ERROR cfg0) w)
     = Inr 200"
  by (simp add: update_task_status_def response_without_url_def env_ok_def)

theorem process_tasks_survives_task_fault_witness:
  "task_ID taskT2 = Some ''T2''
   \<and> fst (process_task_documents (response_without_url (env_ok [])) cfg0 taskT2 ''s'' w0)
       = Inl KeyError
   \<and> is_Exception KeyError
   \<and> fst (update_task_status (response_without_url (env_ok [])) ''T2'' (TASK_ERROR cfg0)
            (snd (process_task_documents (response_without_url (env_ok [])) cfg0 taskT2
                    ''s'' w0)))
       = Inr 200
   \<and> new_calls
        (snd (process_task_documents (response_without_url (env_ok [])) cfg0 taskT2 ''s'' w0))
        (snd (update_task_status (response_without_url (env_ok [])) ''T2'' (TASK_ERROR cfg0)
                (snd (process_task_documents (response_without_url (env_ok [])) cfg0 taskT2
                        ''s'' w0))))
       = [(CallUpdateTask ''T2'' ''ERR'', True)]"
proof -
  define w1 where
    "w1 = snd (process_task_documents (response_without_url (env_ok [])) cfg0 taskT2 ''s'' w0)"
  define w2 where
    "w2 = snd (update_task_status (response_without_url (env_ok [])) ''T2'' (TASK_ERROR cfg0) w1)"
  have h1: "task_ID taskT2 = Some ''T2''" by (simp add: taskT2_def)
  have ag: "process_task_documents (response_without_url (env_ok [])) cfg0 taskT2 ''s'' w0
              = (Inl KeyError, w1)"
    using aggregator_raises by (simp add: w1_def prod_eq_iff)
  have up: "update_task_status (response_without_url (env_ok [])) ''T2'' (TASK_ERROR cfg0) w1
              = (Inr 200, w2)"
    using error_update_returns [of w1] by (simp add: w2_def prod_eq_iff)
  have ex: "is_Exception KeyError" by simp
  have ni: "(Inr 200 :: exn + int) \<noteq> Inl KeyboardInterrupt" by simp
  have e: "TASK_ERROR cfg0 = ''ERR''" by (simp add: cfg0_def)
  have tr: "new_calls w1 w2 = [(CallUpdateTask ''T2'' ''ERR'', True)]"
    using process_tasks_survives_task_fault [OF h1 disjI1 [OF ag] ex up ni,
            THEN conjunct2, THEN conjunct1]
    by (simp add: e returned_def)
  from h1 aggregator_raises ex error_update_returns [of w1] tr
  show ?thesis unfolding w1_def w2_def by (intro conjI)
qed

lemma search_five:
  "search_tasks (env_ok five_tasks) (TASK_STATUS_UPLOAD cfg0) (MAX_TASKS_PER_RUN cfg0) True
     (w0\<lparr>calls := [(CallExchange, True)]\<rparr>) =
     (Inr five_tasks,
      w0\<lparr>calls := [(CallExchange, True), (CallSearch ''UPL'' 100 True, True)]\<rparr>)"
  by (simp add: search_tasks_def env_ok_def record_call_def cfg0_def w0_def)

lemma filter_five: "filter has_documents five_tasks = [taskT2, taskT3, taskEmpty]"
  by (simp add: five_tasks_def has_documents_def taskT2_def taskT3_def taskN1_def taskN2_def
                taskEmpty_def)

lemma process_three:
  "fst (process_tasks (env_ok five_tasks) cfg0 [taskT2, taskT3, taskEmpty] ''session''
          (w0\<lparr>calls := [(CallExchange, True), (CallSearch ''UPL'' 100 True, True)]\<rparr>)) =
     Inr \<lparr>total_tasks = 3, successful_tasks = 2, failed_tasks = 1, total_documents = 3\<rparr>"
  by (simp add: run_defs process_tasks_def process_task_try_def)

theorem only_tasks_with_documents_are_processed_witness:
  "get_workfront_session_id (env_ok five_tasks) cfg0 w0 =
     (Inr ''session'', w0\<lparr>calls := [(CallExchange, True)]\<rparr>)
   \<and> search_tasks (env_ok five_tasks) (TASK_STATUS_UPLOAD cfg0) (MAX_TASKS_PER_RUN cfg0) True
       (w0\<lparr>calls := [(CallExchange, True)]\<rparr>) =
       (Inr five_tasks,
        w0\<lparr>calls := [(CallExchange, True), (CallSearch ''UPL'' 100 True, True)]\<rparr>)
   \<and> length five_tasks = 5
   \<and> find_tasks_for_upload (env_ok five_tasks) cfg0 (w0\<lparr>calls := [(CallExchange, True)]\<rparr>) =
       (Inr [taskT2, taskT3, taskEmpty],
        w0\<lparr>calls := [(CallExchange, True), (CallSearch ''UPL'' 100 True, True)]\<rparr>)
   \<and> fst (process_tasks (env_ok five_tasks) cfg0 [taskT2, taskT3, taskEmpty] ''session''
            (w0\<lparr>calls := [(CallExchange, True), (CallSearch ''UPL'' 100 True, True)]\<rparr>)) =
       Inr \<lparr>total_tasks = 3, successful_tasks = 2, failed_tasks = 1, total_documents = 3\<rparr>"
proof -
  have "find_tasks_for_upload (env_ok five_tasks) cfg0 (w0\<lparr>calls := [(CallExchange, True)]\<rparr>) =
       (Inr (filter has_documents five_tasks),
        w0\<lparr>calls := [(CallExchange, True), (CallSearch ''UPL'' 100 True, True)]\<rparr>)"
    using only_tasks_with_documents_are_processed [OF auth_ok search_five, THEN conjunct1] .
  then have f: "find_tasks_for_upload (env_ok five_tasks) cfg0
                  (w0\<lparr>calls := [(CallExchange, True)]\<rparr>) =
       (Inr [taskT2, taskT3, taskEmpty],
        w0\<lparr>calls := [(CallExchange, True), (CallSearch ''UPL'' 100 True, True)]\<rparr>)"
    by (simp only: filter_five)
  have l: "length five_tasks = 5" by (simp add: five_tasks_def)
  from auth_ok [of five_tasks] search_five l f process_three show ?thesis by (intro conjI)
qed

end
